theory Spec2Isabelle
  imports Complex_Main "HOL-Library.Char_ord" "HOL-Library.List_Lexorder"
begin

section \<open>Time, durations and the machine integer\<close>

text \<open>
  A clock reading (\<^verbatim>\<open>time.Time\<close>, compared through its monotonic part) and a
  \<^verbatim>\<open>time.Duration\<close> are both counted in nanoseconds. Go's \<^verbatim>\<open>int\<close> on the 64-bit
  targets the proxy is built for is a signed 64-bit integer; it is modelled as \<open>int\<close>
  with the wrap-around written out in \<open>wrap64\<close>.
\<close>

type_synonym Time = int
type_synonym Duration = int

definition Second :: Duration where
  "Second = 1000000000"

definition Minute :: Duration where
  "Minute = 60 * Second"

definition maxDuration :: Duration where
  "maxDuration = 2 ^ 63 - 1"

definition minDuration :: Duration where
  "minDuration = - (2 ^ 63)"

definition wrap64 :: "int \<Rightarrow> int" where
  "wrap64 x = (x + 2 ^ 63) mod 2 ^ 64 - 2 ^ 63"

text \<open>\<^verbatim>\<open>t.Sub(u)\<close>: the difference of two readings, saturating at the ends of the
  \<^verbatim>\<open>Duration\<close> range.\<close>

definition Sub :: "Time \<Rightarrow> Time \<Rightarrow> Duration" where
  "Sub t u = (let d = t - u in
     if d > maxDuration then maxDuration
     else if d < minDuration then minDuration
     else d)"

section \<open>RequestTracker (pkg/ratelimit/ratelimit.go)\<close>

record RequestTracker =
  windowStart :: Time
  currentCount :: int

text \<open>\<^verbatim>\<open>NewRequestTracker\<close>; the argument is the reading of \<^verbatim>\<open>time.Now()\<close>.\<close>

definition NewRequestTracker :: "Time \<Rightarrow> RequestTracker" where
  "NewRequestTracker now = \<lparr> windowStart = now, currentCount = 0 \<rparr>"

text \<open>\<^verbatim>\<open>TrackRequest\<close>: the returned count together with the updated tracker.\<close>

definition TrackRequest :: "Time \<Rightarrow> RequestTracker \<Rightarrow> int \<times> RequestTracker" where
  "TrackRequest now rt =
     (let rt1 = (if Sub now (windowStart rt) \<ge> Second
                 then rt\<lparr> windowStart := now, currentCount := 0 \<rparr>
                 else rt);
          rt2 = rt1\<lparr> currentCount := wrap64 (currentCount rt1 + 1) \<rparr>
      in (currentCount rt2, rt2))"

text \<open>\<^verbatim>\<open>GetCurrentRPS\<close>; \<^verbatim>\<open>time.Since(x)\<close> is \<^verbatim>\<open>time.Now().Sub(x)\<close>.\<close>

definition GetCurrentRPS :: "Time \<Rightarrow> RequestTracker \<Rightarrow> int" where
  "GetCurrentRPS now rt =
     (if Sub now (windowStart rt) < Second then currentCount rt else 0)"

text \<open>A sequence of \<^verbatim>\<open>TrackRequest\<close> calls on one tracker, one clock reading per call:
  the values returned, in call order, and the tracker left behind.\<close>

fun TrackRequests :: "Time list \<Rightarrow> RequestTracker \<Rightarrow> int list \<times> RequestTracker" where
  "TrackRequests [] rt = ([], rt)"
| "TrackRequests (now # nows) rt =
     (let (n, rt1) = TrackRequest now rt;
          (ns, rt2) = TrackRequests nows rt1
      in (n # ns, rt2))"

text \<open>The trackers a sequence of calls passes through, the initial one first.\<close>

fun trackerStates :: "Time list \<Rightarrow> RequestTracker \<Rightarrow> RequestTracker list" where
  "trackerStates [] rt = [rt]"
| "trackerStates (now # nows) rt = rt # trackerStates nows (snd (TrackRequest now rt))"

section \<open>The token-bucket gate (golang.org/x/time/rate)\<close>

text \<open>
  The limiter of \<^verbatim>\<open>golang.org/x/time/rate\<close> is a library that is not among the sources.
  It is modelled here after the spec's TokenBucketGate, with tokens as exact rationals.
\<close>

text \<open>Modelled from the spec: \<^verbatim>\<open>rate.Limit\<close> and \<^verbatim>\<open>rate.Every\<close>, missing from the
  sources. A refill rate is a number of tokens per second; \<^verbatim>\<open>Every\<close> turns the minimum
  interval between two events into a rate (one token per interval), and an interval that is
  not positive into the infinite rate, which admits every event.\<close>

datatype Limit = Inf | PerSecond rat

definition Every :: "Duration \<Rightarrow> Limit" where
  "Every interval =
     (if interval \<le> 0 then Inf else PerSecond (1 / (of_int interval / of_int Second)))"

text \<open>Modelled from the spec: \<^verbatim>\<open>rate.Limiter\<close> and \<^verbatim>\<open>rate.NewLimiter\<close>, missing from
  the sources. The gate has a refill rate, a capacity (the burst size), the tokens it holds
  and the time of its last refill; a new gate is full and has not been refilled yet.\<close>

record TokenBucketGate =
  refillRate :: Limit
  capacity :: int
  tokens :: rat
  lastRefill :: "Time option"

definition NewLimiter :: "Limit \<Rightarrow> int \<Rightarrow> TokenBucketGate" where
  "NewLimiter r b = \<lparr> refillRate = r, capacity = b, tokens = of_int b, lastRefill = None \<rparr>"

text \<open>Modelled from the spec: \<^verbatim>\<open>Allow\<close>, missing from the sources; it is the spec's
  \<open>tryAcquire\<close> at the clock reading \<open>now\<close>. Add the tokens accrued over the time
  elapsed since the last refill, capped at the capacity, and set the last refill to
  \<open>now\<close>; if at least one token is held, take one and admit, else refuse. A reading before
  the last refill counts as no time elapsed.\<close>

definition Allow :: "Time \<Rightarrow> TokenBucketGate \<Rightarrow> bool \<times> TokenBucketGate" where
  "Allow now g =
     (case refillRate g of
        Inf \<Rightarrow> (True, g)
      | PerSecond r \<Rightarrow>
          (let elapsed = (case lastRefill g of None \<Rightarrow> 0 | Some l \<Rightarrow> max 0 (Sub now l));
               tk = min (of_int (capacity g)) (tokens g + (of_int elapsed / of_int Second) * r);
               g1 = g\<lparr> tokens := tk, lastRefill := Some now \<rparr>
           in if tk \<ge> 1 then (True, g1\<lparr> tokens := tk - 1 \<rparr>) else (False, g1)))"

section \<open>RateLimiter: the per-client registry (pkg/ratelimit/ratelimit.go)\<close>

record RateLimiter =
  clients :: "string \<rightharpoonup> TokenBucketGate"
  requests :: "string \<rightharpoonup> RequestTracker"
  rate :: Limit
  rps :: int

datatype panic = DivideByZero

text \<open>Go's integer division truncates toward zero.\<close>

definition quo :: "int \<Rightarrow> int \<Rightarrow> int" where
  "quo a b = sgn a * sgn b * (\<bar>a\<bar> div \<bar>b\<bar>)"

text \<open>\<^verbatim>\<open>NewRateLimiter\<close>. The division \<^verbatim>\<open>time.Second / time.Duration(rps)\<close> is an integer
  division, which panics at run time when the divisor is zero. The ticker and the
  goroutine it starts are the caller of \<open>cleanup\<close> below.\<close>

definition NewRateLimiter :: "int \<Rightarrow> panic + RateLimiter" where
  "NewRateLimiter n =
     (if n = 0 then Inl DivideByZero
      else Inr \<lparr> clients = Map.empty, requests = Map.empty,
                 rate = Every (quo Second n), rps = n \<rparr>)"

text \<open>The body of the \<^verbatim>\<open>range rl.requests\<close> loop of \<^verbatim>\<open>cleanup\<close> for one entry. An
  entry deleted earlier in the same loop is not produced any more.\<close>

definition cleanup_entry :: "Time \<Rightarrow> string \<Rightarrow> RateLimiter \<Rightarrow> RateLimiter" where
  "cleanup_entry now ip rl =
     (case requests rl ip of
        None \<Rightarrow> rl
      | Some tracker \<Rightarrow>
          if Sub now (windowStart tracker) > Minute
          then rl\<lparr> requests := (requests rl)(ip := None),
                   clients := (clients rl)(ip := None) \<rparr>
          else rl)"

text \<open>One tick of \<^verbatim>\<open>cleanup\<close>: the clock is read once, then the loop visits the keys of
  \<open>requests\<close>. Go leaves the order of a map iteration open, so the order \<open>ips\<close> is
  an argument.\<close>

fun cleanup_sweep :: "Time \<Rightarrow> string list \<Rightarrow> RateLimiter \<Rightarrow> RateLimiter" where
  "cleanup_sweep now [] rl = rl"
| "cleanup_sweep now (ip # ips) rl = cleanup_sweep now ips (cleanup_entry now ip rl)"

text \<open>\<^verbatim>\<open>cleanup\<close>: one sweep for each tick received from the ticker.\<close>

fun cleanup :: "(Time \<times> string list) list \<Rightarrow> RateLimiter \<Rightarrow> RateLimiter" where
  "cleanup [] rl = rl"
| "cleanup ((now, ips) # ticks) rl = cleanup ticks (cleanup_sweep now ips rl)"

text \<open>\<^verbatim>\<open>GetLimiter\<close>: the gate and the tracker of \<open>ip\<close>, each created if absent, and the
  registry after the call. \<open>now\<close> is the reading \<^verbatim>\<open>NewRequestTracker\<close> takes when it
  is called.\<close>

definition GetLimiter ::
  "Time \<Rightarrow> string \<Rightarrow> RateLimiter \<Rightarrow> TokenBucketGate \<times> RequestTracker \<times> RateLimiter" where
  "GetLimiter now ip rl =
     (let (limiter, rl1) =
            (case clients rl ip of
               Some l \<Rightarrow> (l, rl)
             | None \<Rightarrow> (let l = NewLimiter (rate rl) 1
                        in (l, rl\<lparr> clients := (clients rl)(ip \<mapsto> l) \<rparr>)));
          (tracker, rl2) =
            (case requests rl1 ip of
               Some t \<Rightarrow> (t, rl1)
             | None \<Rightarrow> (let t = NewRequestTracker now
                        in (t, rl1\<lparr> requests := (requests rl1)(ip \<mapsto> t) \<rparr>)))
      in (limiter, tracker, rl2))"

text \<open>
  A request handler holds the pointers \<^verbatim>\<open>GetLimiter\<close> returned and changes the tracker
  and the gate through them; the registry sees the change as long as the entry is still
  there. The operations that act on a registry, and a run of them:
\<close>

datatype registry_op =
    OpGetLimiter Time string
  | OpCleanup Time "string list"
  | OpTrackRequest Time string
  | OpAllow Time string

fun registry_step :: "registry_op \<Rightarrow> RateLimiter \<Rightarrow> RateLimiter" where
  "registry_step (OpGetLimiter now ip) rl = snd (snd (GetLimiter now ip rl))"
| "registry_step (OpCleanup now ips) rl = cleanup_sweep now ips rl"
| "registry_step (OpTrackRequest now ip) rl =
     (case requests rl ip of
        None \<Rightarrow> rl
      | Some t \<Rightarrow> rl\<lparr> requests := (requests rl)(ip \<mapsto> snd (TrackRequest now t)) \<rparr>)"
| "registry_step (OpAllow now ip) rl =
     (case clients rl ip of
        None \<Rightarrow> rl
      | Some l \<Rightarrow> rl\<lparr> clients := (clients rl)(ip \<mapsto> snd (Allow now l)) \<rparr>)"

fun registry_run :: "registry_op list \<Rightarrow> RateLimiter \<Rightarrow> RateLimiter" where
  "registry_run [] rl = rl"
| "registry_run (op # ops) rl = registry_run ops (registry_step op rl)"

section \<open>Client identity (pkg/proxy/proxy.go)\<close>

text \<open>
  Of an inbound \<^verbatim>\<open>http.Request\<close> the handler reads the header map and
  \<^verbatim>\<open>RemoteAddr\<close>. \<^verbatim>\<open>Header.Get\<close> and \<^verbatim>\<open>net.SplitHostPort\<close> are Go's standard
  library: \<^verbatim>\<open>Get\<close> looks up the canonical form of the name it is given and returns the
  first value stored under it, or the empty string.
\<close>

record Request =
  Header :: "string \<rightharpoonup> string list"
  RemoteAddr :: string

definition validHeaderFieldByte :: "char \<Rightarrow> bool" where
  "validHeaderFieldByte c \<longleftrightarrow>
     (CHR ''a'' \<le> c \<and> c \<le> CHR ''z'') \<or> (CHR ''A'' \<le> c \<and> c \<le> CHR ''Z'') \<or>
     (CHR ''0'' \<le> c \<and> c \<le> CHR ''9'') \<or>
     c \<in> set (CHR 0x27 # ''!#$%&*+-.^_`|~'')"

fun canonicalBytes :: "bool \<Rightarrow> string \<Rightarrow> string" where
  "canonicalBytes upper [] = []"
| "canonicalBytes upper (c # cs) =
     (let c' = (if upper \<and> CHR ''a'' \<le> c \<and> c \<le> CHR ''z''
                  then char_of ((of_char c :: nat) - 32)
                else if \<not> upper \<and> CHR ''A'' \<le> c \<and> c \<le> CHR ''Z''
                  then char_of ((of_char c :: nat) + 32)
                else c)
      in c' # canonicalBytes (c' = CHR ''-'') cs)"

definition CanonicalMIMEHeaderKey :: "string \<Rightarrow> string" where
  "CanonicalMIMEHeaderKey s =
     (if list_all validHeaderFieldByte s then canonicalBytes True s else s)"

definition Header_Get :: "(string \<rightharpoonup> string list) \<Rightarrow> string \<Rightarrow> string" where
  "Header_Get h key =
     (case h (CanonicalMIMEHeaderKey key) of
        None \<Rightarrow> []
      | Some [] \<Rightarrow> []
      | Some (v # _) \<Rightarrow> v)"

fun indexByte :: "string \<Rightarrow> char \<Rightarrow> nat option" where
  "indexByte [] c = None"
| "indexByte (x # xs) c = (if x = c then Some 0 else map_option Suc (indexByte xs c))"

definition lastIndexByte :: "string \<Rightarrow> char \<Rightarrow> nat option" where
  "lastIndexByte s c = map_option (\<lambda>i. length s - 1 - i) (indexByte (rev s) c)"

datatype AddrError =
    MissingPort
  | TooManyColons
  | MissingBracket
  | UnexpectedOpenBracket
  | UnexpectedCloseBracket

text \<open>\<^verbatim>\<open>net.SplitHostPort\<close>: \<open>host:port\<close> or \<open>[host]:port\<close>, split at the last colon.\<close>

definition SplitHostPort :: "string \<Rightarrow> AddrError + (string \<times> string)" where
  "SplitHostPort hostport =
     (case lastIndexByte hostport CHR '':'' of
        None \<Rightarrow> Inl MissingPort
      | Some i \<Rightarrow>
          (let finish = (\<lambda>host j k.
                 if indexByte (drop j hostport) CHR ''['' \<noteq> None then Inl UnexpectedOpenBracket
                 else if indexByte (drop k hostport) CHR '']'' \<noteq> None then Inl UnexpectedCloseBracket
                 else Inr (host, drop (i + 1) hostport))
           in if take 1 hostport = ''[''
              then (case indexByte hostport CHR '']'' of
                      None \<Rightarrow> Inl MissingBracket
                    | Some e \<Rightarrow>
                        if e + 1 = length hostport then Inl MissingPort
                        else if e + 1 = i then finish (take (e - 1) (drop 1 hostport)) 1 (e + 1)
                        else if hostport ! (e + 1) = CHR '':'' then Inl TooManyColons
                        else Inl MissingPort)
              else (let host = take i hostport
                    in if indexByte host CHR '':'' \<noteq> None then Inl TooManyColons
                       else finish host 0 0)))"

text \<open>\<^verbatim>\<open>getClientIP\<close>. The error of \<^verbatim>\<open>SplitHostPort\<close> is dropped; with it the host
  returned is the empty string.\<close>

definition getClientIP :: "Request \<Rightarrow> string" where
  "getClientIP r =
     (let forwarded = Header_Get (Header r) ''X-Forwarded-For''
      in if forwarded \<noteq> [] then forwarded
         else (let realIP = Header_Get (Header r) ''X-Real-IP''
               in if realIP \<noteq> [] then realIP
                  else (case SplitHostPort (RemoteAddr r) of
                          Inl err \<Rightarrow> []
                        | Inr (ip, port) \<Rightarrow> ip)))"

section \<open>Configuration (pkg/config/config.go)\<close>

text \<open>The environment is a map from names to values; \<^verbatim>\<open>os.Getenv\<close> gives the empty
  string for a name that is not set.\<close>

definition Getenv :: "(string \<rightharpoonup> string) \<Rightarrow> string \<Rightarrow> string" where
  "Getenv env key = (case env key of None \<Rightarrow> [] | Some v \<Rightarrow> v)"

datatype NumError = ErrSyntax | ErrRange

definition isDigit :: "char \<Rightarrow> bool" where
  "isDigit c \<longleftrightarrow> CHR ''0'' \<le> c \<and> c \<le> CHR ''9''"

definition decimal :: "string \<Rightarrow> int" where
  "decimal ds = foldl (\<lambda>n c. n * 10 + (int (of_char c) - 48)) 0 ds"

text \<open>\<^verbatim>\<open>strconv.Atoi\<close>: an optional sign and decimal digits, within the range of a 64-bit
  \<^verbatim>\<open>int\<close>.\<close>

definition Atoi :: "string \<Rightarrow> NumError + int" where
  "Atoi s =
     (let neg = (take 1 s = ''-'');
          ds = (if take 1 s = ''-'' \<or> take 1 s = ''+'' then drop 1 s else s)
      in if ds = [] \<or> \<not> list_all isDigit ds then Inl ErrSyntax
         else (let n = (if neg then - decimal ds else decimal ds)
               in if n < - (2 ^ 63) \<or> 2 ^ 63 - 1 < n then Inl ErrRange else Inr n))"

definition getEnv :: "(string \<rightharpoonup> string) \<Rightarrow> string \<Rightarrow> string \<Rightarrow> string" where
  "getEnv env key defaultValue =
     (let v = Getenv env key in if v \<noteq> [] then v else defaultValue)"

text \<open>\<^verbatim>\<open>getEnvAsInt\<close>; the warning it logs for a value that does not parse is left out.\<close>

definition getEnvAsInt :: "(string \<rightharpoonup> string) \<Rightarrow> string \<Rightarrow> int \<Rightarrow> int" where
  "getEnvAsInt env key defaultValue =
     (let v = Getenv env key
      in if v \<noteq> []
         then (case Atoi v of Inr intValue \<Rightarrow> intValue | Inl err \<Rightarrow> defaultValue)
         else defaultValue)"

record Config =
  BackendURL :: string
  RateLimit :: int
  ContainerID :: string
  WebhookURL :: string
  ProxyTimeout :: Duration
  MaxIdleConns :: int
  IdleConnTimeout :: Duration

text \<open>\<^verbatim>\<open>LoadConfig\<close>, on the environment as \<^verbatim>\<open>godotenv.Load\<close> leaves it. It never
  returns an error.\<close>

definition LoadConfig :: "(string \<rightharpoonup> string) \<Rightarrow> Config" where
  "LoadConfig env =
     \<lparr> BackendURL = getEnv env ''BACKEND_URL'' ''http://localhost:8080'',
       RateLimit = getEnvAsInt env ''RATE_LIMIT'' 10,
       ContainerID = getEnv env ''CONTAINER_ID'' ''unknown-container'',
       WebhookURL = getEnv env ''WEBHOOK_URL'' [],
       ProxyTimeout = wrap64 (getEnvAsInt env ''PROXY_TIMEOUT_SECONDS'' 30 * Second),
       MaxIdleConns = getEnvAsInt env ''MAX_IDLE_CONNS'' 100,
       IdleConnTimeout = wrap64 (getEnvAsInt env ''IDLE_CONN_TIMEOUT_SECONDS'' 90 * Second) \<rparr>"

section \<open>Webhook notifications (pkg/webhook/webhook.go)\<close>

text \<open>
  \<^verbatim>\<open>json.Marshal\<close> is Go's standard library. Applied to a \<^verbatim>\<open>map[string]interface{}\<close>
  whose values are strings and ints it cannot fail; it writes the members in ascending
  order of their keys, with no white space, strings escaped as the encoder does by
  default (HTML-safe), invalid UTF-8 replaced by U+FFFD. The short escapes are those of
  Go 1.21, the toolchain the Dockerfile builds with.
\<close>

definition hexDigit :: "nat \<Rightarrow> char" where
  "hexDigit n = ''0123456789abcdef'' ! n"

definition escapeByte :: "char \<Rightarrow> string" where
  "escapeByte b =
     (if CHR 0x20 \<le> b \<and> b \<noteq> CHR 0x22 \<and> b \<noteq> CHR 0x5C \<and>
         b \<noteq> CHR ''<'' \<and> b \<noteq> CHR ''>'' \<and> b \<noteq> CHR ''&''
      then [b]
      else CHR 0x5C #
        (if b = CHR 0x5C \<or> b = CHR 0x22 then [b]
         else if b = CHR 0x0A then ''n''
         else if b = CHR 0x0D then ''r''
         else if b = CHR 0x09 then ''t''
         else ''u00'' @ [hexDigit ((of_char b :: nat) div 16), hexDigit ((of_char b :: nat) mod 16)]))"

text \<open>The first byte of a multi-byte UTF-8 sequence: its length and the range allowed for
  the second byte.\<close>

definition utf8First :: "char \<Rightarrow> (nat \<times> char \<times> char) option" where
  "utf8First b =
     (if CHR 0xC2 \<le> b \<and> b \<le> CHR 0xDF then Some (2, CHR 0x80, CHR 0xBF)
      else if b = CHR 0xE0 then Some (3, CHR 0xA0, CHR 0xBF)
      else if CHR 0xE1 \<le> b \<and> b \<le> CHR 0xEC then Some (3, CHR 0x80, CHR 0xBF)
      else if b = CHR 0xED then Some (3, CHR 0x80, CHR 0x9F)
      else if CHR 0xEE \<le> b \<and> b \<le> CHR 0xEF then Some (3, CHR 0x80, CHR 0xBF)
      else if b = CHR 0xF0 then Some (4, CHR 0x90, CHR 0xBF)
      else if CHR 0xF1 \<le> b \<and> b \<le> CHR 0xF3 then Some (4, CHR 0x80, CHR 0xBF)
      else if b = CHR 0xF4 then Some (4, CHR 0x80, CHR 0x8F)
      else None)"

definition continuationByte :: "char \<Rightarrow> bool" where
  "continuationByte b \<longleftrightarrow> CHR 0x80 \<le> b \<and> b \<le> CHR 0xBF"

text \<open>The length of the multi-byte rune a string starts with, 0 when it starts with no
  valid one (\<^verbatim>\<open>utf8.DecodeRuneInString\<close> then gives \<^verbatim>\<open>RuneError\<close> and width 1).\<close>

definition runeLen :: "string \<Rightarrow> nat" where
  "runeLen s =
     (case s of
        [] \<Rightarrow> 0
      | b0 # _ \<Rightarrow>
          (case utf8First b0 of
             None \<Rightarrow> 0
           | Some (sz, lo, hi) \<Rightarrow>
               if length s < sz then 0
               else if s ! 1 < lo \<or> hi < s ! 1 then 0
               else if sz \<le> 2 then 2
               else if \<not> continuationByte (s ! 2) then 0
               else if sz \<le> 3 then 3
               else if \<not> continuationByte (s ! 3) then 0
               else 4))"

fun encodeBytes :: "string \<Rightarrow> string" where
  "encodeBytes [] = []"
| "encodeBytes (b # bs) =
     (if b < CHR 0x80 then escapeByte b @ encodeBytes bs
      else if runeLen (b # bs) = 0 then CHR 0x5C # ''ufffd'' @ encodeBytes bs
      else if take 3 (b # bs) = [CHR 0xE2, CHR 0x80, CHR 0xA8]
        then CHR 0x5C # ''u2028'' @ encodeBytes (drop 2 bs)
      else if take 3 (b # bs) = [CHR 0xE2, CHR 0x80, CHR 0xA9]
        then CHR 0x5C # ''u2029'' @ encodeBytes (drop 2 bs)
      else take (runeLen (b # bs)) (b # bs) @ encodeBytes (drop (runeLen (b # bs) - 1) bs))"

definition jsonString :: "string \<Rightarrow> string" where
  "jsonString s = CHR 0x22 # encodeBytes s @ [CHR 0x22]"

fun digits :: "nat \<Rightarrow> string" where
  "digits n =
     (if n < 10 then [''0123456789'' ! n]
      else digits (n div 10) @ [''0123456789'' ! (n mod 10)])"

declare digits.simps [simp del]

definition Itoa :: "int \<Rightarrow> string" where
  "Itoa n = (if n < 0 then CHR ''-'' # digits (nat (- n)) else digits (nat n))"

datatype json_value = JString string | JInt int

fun encodeValue :: "json_value \<Rightarrow> string" where
  "encodeValue (JString s) = jsonString s"
| "encodeValue (JInt n) = Itoa n"

fun joinComma :: "string list \<Rightarrow> string" where
  "joinComma [] = []"
| "joinComma [x] = x"
| "joinComma (x # y # ys) = x @ '','' @ joinComma (y # ys)"

text \<open>The map is given by its entries, with distinct keys.\<close>

definition json_Marshal :: "(string \<times> json_value) list \<Rightarrow> string" where
  "json_Marshal m =
     ''{'' @ joinComma (map (\<lambda>(k, v). jsonString k @ '':'' @ encodeValue v) (sort_key fst m)) @ ''}''"

record Notifier =
  webhookURL :: string
  containerID :: string

definition NewNotifier :: "string \<Rightarrow> string \<Rightarrow> Notifier" where
  "NewNotifier url cid = \<lparr> webhookURL = url, containerID = cid \<rparr>"

text \<open>What a handler does to the outside, in the order it does it.\<close>

datatype event =
    LogWebhookSkipped
  | HttpPost string string string
  | LogWebhookSent nat
  | LogRateLimitExceeded string int int
  | LogWebhookFailed string
  | HttpError string nat
  | ProxyServeHTTP Duration

text \<open>\<^verbatim>\<open>http.Post\<close> is the network: from URL, content type and body to a transport error
  or the status code of the response.\<close>

type_synonym Transport = "string \<Rightarrow> string \<Rightarrow> string \<Rightarrow> string + nat"

text \<open>\<^verbatim>\<open>NotifyRateLimit\<close>: the error it returns, if any, and what it did.\<close>

definition NotifyRateLimit ::
  "Transport \<Rightarrow> Notifier \<Rightarrow> int \<Rightarrow> int \<Rightarrow> string option \<times> event list" where
  "NotifyRateLimit post n expectedRPS receivedRPS =
     (if webhookURL n = [] then (None, [LogWebhookSkipped])
      else
        (let payload = [(''container_id'', JString (containerID n)),
                        (''limit_expected_rps'', JInt expectedRPS),
                        (''limit_exceeded_rps'', JInt receivedRPS),
                        (''message'', JString ''Rate limit exceeded'')];
             jsonData = json_Marshal payload
         in case post (webhookURL n) ''application/json'' jsonData of
              Inl err \<Rightarrow> (Some err, [HttpPost (webhookURL n) ''application/json'' jsonData])
            | Inr status \<Rightarrow>
                (None, [HttpPost (webhookURL n) ''application/json'' jsonData,
                        LogWebhookSent status])))"

section \<open>The dispatcher (pkg/proxy/proxy.go)\<close>

record ReverseProxy =
  config :: Config
  rateLimiter :: RateLimiter
  notifier :: Notifier

datatype startup_failure = BackendURLError | Panic panic

text \<open>\<^verbatim>\<open>NewReverseProxy\<close>; \<open>parses\<close> tells whether \<^verbatim>\<open>url.Parse\<close> accepts the backend
  URL. The transport and the director it sets up belong to the forwarding primitive.\<close>

definition NewReverseProxy :: "(string \<Rightarrow> bool) \<Rightarrow> Config \<Rightarrow> startup_failure + ReverseProxy" where
  "NewReverseProxy parses cfg =
     (if \<not> parses (BackendURL cfg) then Inl BackendURLError
      else (case NewRateLimiter (RateLimit cfg) of
              Inl p \<Rightarrow> Inl (Panic p)
            | Inr rl \<Rightarrow>
                Inr \<lparr> config = cfg, rateLimiter = rl,
                      notifier = NewNotifier (WebhookURL cfg) (ContainerID cfg) \<rparr>))"

text \<open>The readings of \<^verbatim>\<open>time.Now()\<close> one request can take: in \<^verbatim>\<open>NewRequestTracker\<close>
  (when \<^verbatim>\<open>GetLimiter\<close> creates the tracker), in \<^verbatim>\<open>TrackRequest\<close>, and in \<^verbatim>\<open>Allow\<close>
  (when the gate is consulted).\<close>

record Clock =
  nowGetLimiter :: Time
  nowTrackRequest :: Time
  nowAllow :: Time

text \<open>\<^verbatim>\<open>ServeHTTP\<close>, run without interleaving: what the handler does, and the proxy
  afterwards. The tracker and the gate are changed through the pointers \<^verbatim>\<open>GetLimiter\<close>
  returned, that is, in place in the registry.\<close>

definition ServeHTTP ::
  "Transport \<Rightarrow> Clock \<Rightarrow> Request \<Rightarrow> ReverseProxy \<Rightarrow> event list \<times> ReverseProxy" where
  "ServeHTTP post clk r rp =
     (let clientIP = getClientIP r;
          (limiter, tracker, rl1) = GetLimiter (nowGetLimiter clk) clientIP (rateLimiter rp);
          (currentRPS, tracker') = TrackRequest (nowTrackRequest clk) tracker;
          rl2 = rl1\<lparr> requests := (requests rl1)(clientIP \<mapsto> tracker') \<rparr>;
          forward = [ProxyServeHTTP (ProxyTimeout (config rp))]
      in if currentRPS > RateLimit (config rp)
         then (let (ok, limiter') = Allow (nowAllow clk) limiter;
                   rl3 = rl2\<lparr> clients := (clients rl2)(clientIP \<mapsto> limiter') \<rparr>
               in if \<not> ok
                  then (let (err, sent) =
                              NotifyRateLimit post (notifier rp) (RateLimit (config rp)) currentRPS
                        in ([LogRateLimitExceeded clientIP currentRPS (RateLimit (config rp))] @
                            sent @
                            (case err of None \<Rightarrow> [] | Some e \<Rightarrow> [LogWebhookFailed e]) @
                            [HttpError ''Too Many Requests'' 429],
                            rp\<lparr> rateLimiter := rl3 \<rparr>))
                  else (forward, rp\<lparr> rateLimiter := rl3 \<rparr>))
         else (forward, rp\<lparr> rateLimiter := rl2 \<rparr>))"

text \<open>Requests served one after the other: what each did, and the proxy at the end.\<close>

fun ServeHTTPs ::
  "Transport \<Rightarrow> (Clock \<times> Request) list \<Rightarrow> ReverseProxy \<Rightarrow> event list list \<times> ReverseProxy" where
  "ServeHTTPs post [] rp = ([], rp)"
| "ServeHTTPs post ((clk, r) # rest) rp =
     (let (es, rp1) = ServeHTTP post clk r rp;
          (ess, rp2) = ServeHTTPs post rest rp1
      in (es # ess, rp2))"

definition isHttpPost :: "event \<Rightarrow> bool" where
  "isHttpPost e = (case e of HttpPost url contentType body \<Rightarrow> True | _ \<Rightarrow> False)"

text \<open>The bytes the JSON encoder copies as they are.\<close>

definition plainByte :: "char \<Rightarrow> bool" where
  "plainByte b \<longleftrightarrow>
     CHR 0x20 \<le> b \<and> b < CHR 0x80 \<and> b \<noteq> CHR 0x22 \<and> b \<noteq> CHR 0x5C \<and>
     b \<noteq> CHR ''<'' \<and> b \<noteq> CHR ''>'' \<and> b \<noteq> CHR ''&''"

text \<open>What the handler does when it rejects a request that it counted as \<open>observed\<close>:
  the tail of \<^verbatim>\<open>ServeHTTP\<close> from the log line to the 429 response.\<close>

definition rejection :: "Transport \<Rightarrow> ReverseProxy \<Rightarrow> string \<Rightarrow> int \<Rightarrow> event list" where
  "rejection post rp ip observed =
     [LogRateLimitExceeded ip observed (RateLimit (config rp))] @
     snd (NotifyRateLimit post (notifier rp) (RateLimit (config rp)) observed) @
     (case fst (NotifyRateLimit post (notifier rp) (RateLimit (config rp)) observed) of
        None \<Rightarrow> [] | Some e \<Rightarrow> [LogWebhookFailed e]) @
     [HttpError ''Too Many Requests'' 429]"

section \<open>Example inputs\<close>

text \<open>A transport whose every request is answered with status 200, and a notifier with a
  target.\<close>

definition transport_example :: Transport where
  "transport_example url contentType body = Inr 200"

definition notifier_example :: Notifier where
  "notifier_example = \<lparr> webhookURL = ''http://hooks.test/notify'', containerID = ''web-1'' \<rparr>"

text \<open>A registry with two clients, and a run of registry operations.\<close>

definition registry_example :: RateLimiter where
  "registry_example =
     \<lparr> clients = [''10.0.0.1'' \<mapsto> NewLimiter (Every 100000000) 1,
                  ''10.0.0.2'' \<mapsto> NewLimiter (Every 100000000) 1],
       requests = [''10.0.0.1'' \<mapsto> \<lparr> windowStart = 0, currentCount = 3 \<rparr>,
                   ''10.0.0.2'' \<mapsto> \<lparr> windowStart = 30000000000, currentCount = 1 \<rparr>],
       rate = Every 100000000, rps = 10 \<rparr>"

definition registry_ops_example :: "registry_op list" where
  "registry_ops_example =
     [OpGetLimiter 0 ''10.0.0.1'', OpTrackRequest 5 ''10.0.0.1'',
      OpGetLimiter 30000000000 ''10.0.0.2'', OpTrackRequest 30000000007 ''10.0.0.2'',
      OpCleanup 60000000001 [''10.0.0.2'', ''10.0.0.1''], OpAllow 60000000002 ''10.0.0.2'']"

text \<open>The environment of the README, a proxy started on it, and twelve requests of one
  client one millisecond apart.\<close>

definition env_example :: "string \<rightharpoonup> string" where
  "env_example =
     [''BACKEND_URL'' \<mapsto> ''http://localhost:8080'', ''RATE_LIMIT'' \<mapsto> ''10'',
      ''CONTAINER_ID'' \<mapsto> ''web-1'', ''WEBHOOK_URL'' \<mapsto> ''http://hooks.test/notify'']"

definition config_example :: Config where
  "config_example =
     \<lparr> BackendURL = ''http://localhost:8080'', RateLimit = 10, ContainerID = ''web-1'',
       WebhookURL = ''http://hooks.test/notify'', ProxyTimeout = 30000000000,
       MaxIdleConns = 100, IdleConnTimeout = 90000000000 \<rparr>"

definition proxy_example :: ReverseProxy where
  "proxy_example =
     \<lparr> config = config_example,
       rateLimiter = \<lparr> clients = Map.empty, requests = Map.empty,
                       rate = Every 100000000, rps = 10 \<rparr>,
       notifier = notifier_example \<rparr>"

definition request_example :: Request where
  "request_example = \<lparr> Header = Map.empty, RemoteAddr = ''203.0.113.9:40000'' \<rparr>"

definition clock_example :: "int \<Rightarrow> Clock" where
  "clock_example i =
     \<lparr> nowGetLimiter = 1000000 * i, nowTrackRequest = 1000000 * i + 1,
       nowAllow = 1000000 * i + 2 \<rparr>"

definition requests_example :: "(Clock \<times> Request) list" where
  "requests_example =
     map (\<lambda>i. (clock_example i, request_example)) [1, 2, 3, 4, 5, 6, 7, 8, 9, 10, 11, 12]"

text \<open>The proxy after eleven of these requests: the client's window holds eleven requests
  and its gate gave its token to the eleventh.\<close>

definition busy_proxy_example :: ReverseProxy where
  "busy_proxy_example =
     proxy_example\<lparr> rateLimiter :=
       \<lparr> clients = [''203.0.113.9'' \<mapsto>
            \<lparr> refillRate = PerSecond 10, capacity = 1, tokens = 0,
              lastRefill = Some 11000002 \<rparr>],
         requests = [''203.0.113.9'' \<mapsto> \<lparr> windowStart = 1000000, currentCount = 11 \<rparr>],
         rate = Every 100000000, rps = 10 \<rparr> \<rparr>"

section \<open>Properties of the request tracker\<close>

lemma Second_le_maxDuration: "Second \<le> maxDuration"
  by (simp add: Second_def maxDuration_def)

lemma minDuration_less_Second: "minDuration < Second"
  by (simp add: Second_def minDuration_def)

lemma Sub_ge_Second_iff: "Second \<le> Sub t u \<longleftrightarrow> Second \<le> t - u"
  using Second_le_maxDuration minDuration_less_Second
  by (auto simp: Sub_def Let_def)

lemma Sub_gt_Minute_iff: "Minute < Sub t u \<longleftrightarrow> Minute < t - u"
  by (auto simp: Sub_def Let_def Minute_def Second_def maxDuration_def minDuration_def)

lemma wrap64_id: "- (2 ^ 63) \<le> x \<Longrightarrow> x < 2 ^ 63 \<Longrightarrow> wrap64 x = x"
  by (simp add: wrap64_def)

lemma TrackRequest_reset:
  "Second \<le> now - windowStart rt \<Longrightarrow>
     TrackRequest now rt = (1, \<lparr> windowStart = now, currentCount = 1 \<rparr>)"
  by (simp add: TrackRequest_def Let_def Sub_ge_Second_iff wrap64_def)

lemma TrackRequest_same_window:
  "now - windowStart rt < Second \<Longrightarrow>
     TrackRequest now rt =
       (wrap64 (currentCount rt + 1), rt\<lparr> currentCount := wrap64 (currentCount rt + 1) \<rparr>)"
  by (simp add: TrackRequest_def Let_def Sub_ge_Second_iff)

lemma TrackRequests_same_window:
  "(\<forall>t \<in> set ts. t - windowStart rt < Second) \<Longrightarrow>
   0 \<le> currentCount rt \<Longrightarrow> currentCount rt + int (length ts) < 2 ^ 63 \<Longrightarrow>
   TrackRequests ts rt =
     (map (\<lambda>i. currentCount rt + int i) [1 ..< Suc (length ts)],
      rt\<lparr> currentCount := currentCount rt + int (length ts) \<rparr>)"
proof (induction ts arbitrary: rt)
  case Nil
  then show ?case by simp
next
  case (Cons t ts)
  let ?rt1 = "rt\<lparr> currentCount := currentCount rt + 1 \<rparr>"
  have w: "wrap64 (currentCount rt + 1) = currentCount rt + 1"
    using Cons.prems by (intro wrap64_id) auto
  have step: "TrackRequest t rt = (currentCount rt + 1, ?rt1)"
    using Cons.prems w by (simp add: TrackRequest_same_window)
  have rest: "TrackRequests ts ?rt1 =
     (map (\<lambda>i. currentCount ?rt1 + int i) [1 ..< Suc (length ts)],
      ?rt1\<lparr> currentCount := currentCount ?rt1 + int (length ts) \<rparr>)"
    using Cons.prems by (intro Cons.IH) auto
  have shift: "map (\<lambda>i. currentCount rt + int i) [Suc 1 ..< Suc (Suc (length ts))] =
     map (\<lambda>i. currentCount rt + 1 + int i) [1 ..< Suc (length ts)]"
    by (simp only: map_Suc_upt [symmetric] map_map) (simp add: comp_def)
  have "[1 ..< Suc (length (t # ts))] = 1 # [Suc 1 ..< Suc (Suc (length ts))]"
    by (simp add: upt_rec)
  then show ?case
    using step rest shift by (simp add: add.assoc)
qed

text \<open>
  C2. \<^verbatim>\<open>TrackRequest\<close>: when at least one second has passed since \<open>windowStart\<close> the
  window is reset to the current reading and the count to zero before the call is counted,
  so the call returns 1; otherwise the call adds one to the count of the open window and
  returns it. Hence on a fresh tracker a sequence of calls that all fall within one second
  of the window start returns 1, 2, ..., n (the count is a 64-bit integer, so n stays below
  \<open>2 ^ 63\<close>), and a call made once the second has elapsed returns 1 again; the calls
  that follow it within one second of it return 2, 3, ... in turn.
\<close>

theorem TrackRequest_counts_window:
  "(Second \<le> now - windowStart rt \<longrightarrow>
      TrackRequest now rt = (1, \<lparr> windowStart = now, currentCount = 1 \<rparr>)) \<and>
   (now - windowStart rt < Second \<longrightarrow> 0 \<le> currentCount rt \<longrightarrow> currentCount rt + 1 < 2 ^ 63 \<longrightarrow>
      TrackRequest now rt = (currentCount rt + 1, rt\<lparr> currentCount := currentCount rt + 1 \<rparr>)) \<and>
   ((\<forall>t \<in> set ts. t - t0 < Second) \<longrightarrow> int (length ts) < 2 ^ 63 \<longrightarrow>
      fst (TrackRequests ts (NewRequestTracker t0)) = map int [1 ..< Suc (length ts)] \<and>
      (Second \<le> later - t0 \<longrightarrow>
         fst (TrackRequest later (snd (TrackRequests ts (NewRequestTracker t0)))) = 1)) \<and>
   (Second \<le> now - windowStart rt \<longrightarrow> (\<forall>t \<in> set ts. t - now < Second) \<longrightarrow>
      1 + int (length ts) < 2 ^ 63 \<longrightarrow>
      fst (TrackRequests (now # ts) rt) = map int [1 ..< Suc (Suc (length ts))])"
proof (intro conjI impI)
  assume r: "Second \<le> now - windowStart rt" and w: "\<forall>t \<in> set ts. t - now < Second"
    and n: "1 + int (length ts) < 2 ^ 63"
  let ?rt1 = "\<lparr> windowStart = now, currentCount = 1 \<rparr>"
  have "TrackRequests ts ?rt1 =
     (map (\<lambda>i. currentCount ?rt1 + int i) [1 ..< Suc (length ts)],
      ?rt1\<lparr> currentCount := currentCount ?rt1 + int (length ts) \<rparr>)"
    using w n by (intro TrackRequests_same_window) auto
  then have rest: "fst (TrackRequests ts ?rt1) = map (\<lambda>i. 1 + int i) [1 ..< Suc (length ts)]"
    by simp
  have e1: "[1 ..< Suc (Suc (length ts))] = 1 # [Suc 1 ..< Suc (Suc (length ts))]"
    by (simp add: upt_rec)
  have e2: "[Suc 1 ..< Suc (Suc (length ts))] = map Suc [1 ..< Suc (length ts)]"
    by (simp only: map_Suc_upt)
  have lst: "map int [1 ..< Suc (Suc (length ts))] =
      1 # map (\<lambda>i. 1 + int i) [1 ..< Suc (length ts)]"
    by (simp only: e1 e2) (simp add: comp_def del: upt_Suc)
  have "fst (TrackRequests (now # ts) rt) = 1 # fst (TrackRequests ts ?rt1)"
    using TrackRequest_reset [OF r] by (simp split: prod.splits)
  then show "fst (TrackRequests (now # ts) rt) = map int [1 ..< Suc (Suc (length ts))]"
    by (simp only: rest lst)
next
  assume "Second \<le> now - windowStart rt"
  then show "TrackRequest now rt = (1, \<lparr> windowStart = now, currentCount = 1 \<rparr>)"
    by (rule TrackRequest_reset)
next
  assume a: "now - windowStart rt < Second" "0 \<le> currentCount rt" "currentCount rt + 1 < 2 ^ 63"
  then have "wrap64 (currentCount rt + 1) = currentCount rt + 1"
    by (intro wrap64_id) auto
  with a show "TrackRequest now rt =
      (currentCount rt + 1, rt\<lparr> currentCount := currentCount rt + 1 \<rparr>)"
    by (simp add: TrackRequest_same_window)
next
  assume a: "\<forall>t \<in> set ts. t - t0 < Second" "int (length ts) < 2 ^ 63"
  have run: "TrackRequests ts (NewRequestTracker t0) =
     (map (\<lambda>i. 0 + int i) [1 ..< Suc (length ts)],
      (NewRequestTracker t0)\<lparr> currentCount := 0 + int (length ts) \<rparr>)"
    using a TrackRequests_same_window [of ts "NewRequestTracker t0"]
    by (simp add: NewRequestTracker_def)
  show "fst (TrackRequests ts (NewRequestTracker t0)) = map int [1 ..< Suc (length ts)]"
    by (simp add: run)
  assume "Second \<le> later - t0"
  then have "Second \<le> later - windowStart (snd (TrackRequests ts (NewRequestTracker t0)))"
    by (simp add: run) (simp add: NewRequestTracker_def)
  then show "fst (TrackRequest later (snd (TrackRequests ts (NewRequestTracker t0)))) = 1"
    by (simp only: TrackRequest_reset fst_conv)
qed

theorem TrackRequest_counts_window_witness:
  "TrackRequest 1500000000 \<lparr> windowStart = 0, currentCount = 7 \<rparr>
     = (1, \<lparr> windowStart = 1500000000, currentCount = 1 \<rparr>) \<and>
   TrackRequest 999999999 \<lparr> windowStart = 0, currentCount = 7 \<rparr>
     = (8, \<lparr> windowStart = 0, currentCount = 8 \<rparr>) \<and>
   fst (TrackRequests [100, 200, 999999999] (NewRequestTracker 50)) = [1, 2, 3] \<and>
   fst (TrackRequest 1000000050 (snd (TrackRequests [100, 200, 999999999] (NewRequestTracker 50)))) = 1 \<and>
   fst (TrackRequests [1500000000, 1500000001, 2499999999] \<lparr> windowStart = 0, currentCount = 7 \<rparr>)
     = [1, 2, 3]"
proof -
  have "TrackRequest 1500000000 \<lparr> windowStart = 0, currentCount = 7 \<rparr>
     = (1, \<lparr> windowStart = 1500000000, currentCount = 1 \<rparr>)"
    using TrackRequest_counts_window
      [of 1500000000 "\<lparr> windowStart = 0, currentCount = 7 \<rparr>" "[]" 0 0]
    by (simp add: Second_def)
  moreover have "TrackRequest 999999999 \<lparr> windowStart = 0, currentCount = 7 \<rparr>
     = (8, \<lparr> windowStart = 0, currentCount = 8 \<rparr>)"
    using TrackRequest_counts_window
      [of 999999999 "\<lparr> windowStart = 0, currentCount = 7 \<rparr>" "[]" 0 0]
    by (simp add: Second_def)
  moreover have "fst (TrackRequests [100, 200, 999999999] (NewRequestTracker 50)) = [1, 2, 3] \<and>
   fst (TrackRequest 1000000050 (snd (TrackRequests [100, 200, 999999999] (NewRequestTracker 50)))) = 1"
    using TrackRequest_counts_window
      [of 0 "\<lparr> windowStart = 0, currentCount = 0 \<rparr>" "[100, 200, 999999999]" 50 1000000050]
    by (simp add: Second_def upt_rec)
  moreover have "fst (TrackRequests [1500000000, 1500000001, 2499999999]
      \<lparr> windowStart = 0, currentCount = 7 \<rparr>) = [1, 2, 3]"
    using TrackRequest_counts_window
      [of 1500000000 "\<lparr> windowStart = 0, currentCount = 7 \<rparr>" "[1500000001, 2499999999]" 0 0]
    by (simp add: Second_def upt_rec del: TrackRequests.simps)
  ultimately show ?thesis by simp
qed

text \<open>
  C8. A call of \<^verbatim>\<open>TrackRequest\<close> never moves \<open>windowStart\<close> backward: it either keeps
  it or replaces it by a reading at least one second later. So along any sequence of calls
  the successive values of \<open>windowStart\<close> are non-decreasing.
\<close>

theorem windowStart_never_decreases:
  "windowStart rt \<le> windowStart (snd (TrackRequest now rt)) \<and>
   sorted (map windowStart (trackerStates nows rt))"
proof
  have step: "windowStart r \<le> windowStart (snd (TrackRequest t r))" for t r
    using Sub_ge_Second_iff [of t "windowStart r"]
    by (simp add: TrackRequest_def Let_def Second_def)
  show "windowStart rt \<le> windowStart (snd (TrackRequest now rt))"
    by (rule step)
  have hd_states: "\<forall>x \<in> set (trackerStates ts r). windowStart r \<le> windowStart x" for ts r
  proof (induction ts arbitrary: r)
    case Nil
    then show ?case by simp
  next
    case (Cons t ts)
    show ?case
      using Cons.IH [of "snd (TrackRequest t r)"] step [of r t] by auto
  qed
  show "sorted (map windowStart (trackerStates nows rt))"
  proof (induction nows arbitrary: rt)
    case Nil
    then show ?case by simp
  next
    case (Cons t ts)
    show ?case
      using Cons.IH [of "snd (TrackRequest t rt)"] hd_states [of ts "snd (TrackRequest t rt)"]
        step [of rt t]
      by (auto simp: sorted_wrt_map)
  qed
qed

section \<open>Properties of the registry\<close>

lemma requests_cleanup_entry:
  "requests (cleanup_entry now ip rl) k =
     (case requests rl k of
        None \<Rightarrow> None
      | Some t \<Rightarrow> if k = ip \<and> Minute < now - windowStart t then None else Some t)"
  by (auto simp: cleanup_entry_def Sub_gt_Minute_iff split: option.splits)

lemma clients_cleanup_entry:
  "clients (cleanup_entry now ip rl) k =
     (case requests rl k of
        None \<Rightarrow> clients rl k
      | Some t \<Rightarrow> if k = ip \<and> Minute < now - windowStart t then None else clients rl k)"
  by (auto simp: cleanup_entry_def Sub_gt_Minute_iff split: option.splits)

lemma requests_cleanup_sweep:
  "requests (cleanup_sweep now ips rl) k =
     (case requests rl k of
        None \<Rightarrow> None
      | Some t \<Rightarrow> if k \<in> set ips \<and> Minute < now - windowStart t then None else Some t)"
proof (induction ips arbitrary: rl)
  case Nil
  then show ?case by (simp split: option.splits)
next
  case (Cons ip ips)
  show ?case
    by (simp add: Cons.IH requests_cleanup_entry split: option.splits)
qed

lemma clients_cleanup_sweep:
  "clients (cleanup_sweep now ips rl) k =
     (case requests rl k of
        None \<Rightarrow> clients rl k
      | Some t \<Rightarrow> if k \<in> set ips \<and> Minute < now - windowStart t then None else clients rl k)"
proof (induction ips arbitrary: rl)
  case Nil
  then show ?case by (simp split: option.splits)
next
  case (Cons ip ips)
  show ?case
    by (simp add: Cons.IH requests_cleanup_entry clients_cleanup_entry split: option.splits)
qed

text \<open>
  C6. One eviction sweep at the reading \<open>now\<close>, visiting the keys of the tracker map in
  any order: an entry whose tracker's \<open>windowStart\<close> lies more than one minute back is
  gone from both maps afterwards, and an entry whose \<open>windowStart\<close> lies at most one
  minute back is still there with its tracker and gate unchanged.
\<close>

theorem cleanup_sweep_evicts_exactly_stale:
  assumes "set ips = dom (requests rl)"
    and "requests rl ip = Some t"
  shows "(Minute < now - windowStart t \<longrightarrow>
            requests (cleanup_sweep now ips rl) ip = None \<and>
            clients (cleanup_sweep now ips rl) ip = None) \<and>
         (now - windowStart t \<le> Minute \<longrightarrow>
            requests (cleanup_sweep now ips rl) ip = Some t \<and>
            clients (cleanup_sweep now ips rl) ip = clients rl ip)"
proof -
  have "ip \<in> set ips"
    using assms by auto
  then show ?thesis
    using assms(2) by (simp add: requests_cleanup_sweep clients_cleanup_sweep)
qed

theorem cleanup_sweep_evicts_exactly_stale_witness:
  "requests (cleanup_sweep 60000000001 [''10.0.0.2'', ''10.0.0.1''] registry_example) ''10.0.0.1'' = None \<and>
   clients (cleanup_sweep 60000000001 [''10.0.0.2'', ''10.0.0.1''] registry_example) ''10.0.0.1'' = None \<and>
   requests (cleanup_sweep 60000000001 [''10.0.0.2'', ''10.0.0.1''] registry_example) ''10.0.0.2''
     = Some \<lparr> windowStart = 30000000000, currentCount = 1 \<rparr> \<and>
   clients (cleanup_sweep 60000000001 [''10.0.0.2'', ''10.0.0.1''] registry_example) ''10.0.0.2''
     = Some (NewLimiter (Every 100000000) 1)"
proof -
  have d: "set [''10.0.0.2'', ''10.0.0.1''] = dom (requests registry_example)"
    by (auto simp: registry_example_def)
  have r1: "requests registry_example ''10.0.0.1'' = Some \<lparr> windowStart = 0, currentCount = 3 \<rparr>"
    by (simp add: registry_example_def)
  have r2: "requests registry_example ''10.0.0.2''
      = Some \<lparr> windowStart = 30000000000, currentCount = 1 \<rparr>"
    by (simp add: registry_example_def)
  have c2: "clients registry_example ''10.0.0.2'' = Some (NewLimiter (Every 100000000) 1)"
    by (simp add: registry_example_def)
  show ?thesis
    using cleanup_sweep_evicts_exactly_stale [OF d r1, of 60000000001]
      cleanup_sweep_evicts_exactly_stale [OF d r2, of 60000000001] c2
    by (simp add: Minute_def Second_def)
qed

lemma dom_GetLimiter:
  "dom (clients rl) = dom (requests rl) \<Longrightarrow>
   dom (clients (snd (snd (GetLimiter now ip rl)))) = dom (requests (snd (snd (GetLimiter now ip rl))))"
  by (auto simp: GetLimiter_def Let_def split: option.splits)

lemma dom_cleanup_entry:
  "dom (clients rl) = dom (requests rl) \<Longrightarrow>
   dom (clients (cleanup_entry now ip rl)) = dom (requests (cleanup_entry now ip rl))"
  by (auto simp: cleanup_entry_def split: option.splits)

lemma dom_cleanup_sweep:
  "dom (clients rl) = dom (requests rl) \<Longrightarrow>
   dom (clients (cleanup_sweep now ips rl)) = dom (requests (cleanup_sweep now ips rl))"
  by (induction ips arbitrary: rl) (simp_all add: dom_cleanup_entry)

lemma dom_registry_step:
  "dom (clients rl) = dom (requests rl) \<Longrightarrow>
   dom (clients (registry_step op rl)) = dom (requests (registry_step op rl))"
proof (cases op)
  case (OpGetLimiter now ip)
  then show "dom (clients rl) = dom (requests rl) \<Longrightarrow> ?thesis"
    by (simp add: dom_GetLimiter)
next
  case (OpCleanup now ips)
  then show "dom (clients rl) = dom (requests rl) \<Longrightarrow> ?thesis"
    by (simp add: dom_cleanup_sweep)
next
  case (OpTrackRequest now ip)
  then show "dom (clients rl) = dom (requests rl) \<Longrightarrow> ?thesis"
    by (auto split: option.splits)
next
  case (OpAllow now ip)
  then show "dom (clients rl) = dom (requests rl) \<Longrightarrow> ?thesis"
    by (auto split: option.splits)
qed

lemma dom_registry_run:
  "dom (clients rl) = dom (requests rl) \<Longrightarrow>
   dom (clients (registry_run ops rl)) = dom (requests (registry_run ops rl))"
  by (induction ops arbitrary: rl) (simp_all add: dom_registry_step)

lemma GetLimiter_present:
  "GetLimiter now ip rl = (l, t, rl') \<Longrightarrow> clients rl' ip = Some l \<and> requests rl' ip = Some t"
  by (auto simp: GetLimiter_def Let_def split: option.splits)

text \<open>
  C7. In every registry reached from a newly constructed one by calls of
  \<^verbatim>\<open>GetLimiter\<close>, eviction sweeps (in any iteration order) and the handlers' updates of
  a tracker or gate, the tracker map and the gate map have the same keys: an identity has
  no entry, or exactly one tracker and one gate. \<^verbatim>\<open>GetLimiter\<close> leaves both present
  for the identity it was asked for, a sweep removes both or neither.
\<close>

theorem registry_pairs_invariant:
  assumes "NewRateLimiter n = Inr rl0"
    and "rl = registry_run ops rl0"
  shows "dom (clients rl) = dom (requests rl) \<and>
         (\<forall>now ip l t rl'. GetLimiter now ip rl = (l, t, rl') \<longrightarrow>
            clients rl' ip = Some l \<and> requests rl' ip = Some t \<and>
            dom (clients rl') = dom (requests rl')) \<and>
         (\<forall>now ips ip. (clients (cleanup_sweep now ips rl) ip = None) =
                        (requests (cleanup_sweep now ips rl) ip = None))"
proof -
  have "dom (clients rl0) = dom (requests rl0)"
    using assms(1) by (auto simp: NewRateLimiter_def split: if_splits)
  then have inv: "dom (clients rl) = dom (requests rl)"
    unfolding assms(2) by (rule dom_registry_run)
  have get: "clients rl' ip = Some l \<and> requests rl' ip = Some t \<and>
      dom (clients rl') = dom (requests rl')"
    if "GetLimiter now ip rl = (l, t, rl')" for now ip l t rl'
    using GetLimiter_present [OF that] dom_GetLimiter [OF inv, of now ip] that by simp
  have sweep: "(clients (cleanup_sweep now ips rl) ip = None) =
      (requests (cleanup_sweep now ips rl) ip = None)" for now ips ip
  proof -
    have "ip \<in> dom (clients (cleanup_sweep now ips rl)) \<longleftrightarrow>
        ip \<in> dom (requests (cleanup_sweep now ips rl))"
      by (simp only: dom_cleanup_sweep [OF inv])
    then show ?thesis
      by (simp only: domIff) blast
  qed
  show ?thesis
    using inv get sweep by blast
qed


theorem registry_pairs_invariant_witness:
  "NewRateLimiter 10 =
     Inr \<lparr> clients = Map.empty, requests = Map.empty, rate = Every 100000000, rps = 10 \<rparr> \<and>
   dom (clients (registry_run registry_ops_example
      \<lparr> clients = Map.empty, requests = Map.empty, rate = Every 100000000, rps = 10 \<rparr>)) =
   dom (requests (registry_run registry_ops_example
      \<lparr> clients = Map.empty, requests = Map.empty, rate = Every 100000000, rps = 10 \<rparr>)) \<and>
   dom (requests (registry_run registry_ops_example
      \<lparr> clients = Map.empty, requests = Map.empty, rate = Every 100000000, rps = 10 \<rparr>)) =
   {''10.0.0.2''}"
proof -
  let ?rl0 = "\<lparr> clients = Map.empty, requests = Map.empty, rate = Every 100000000, rps = 10 \<rparr>"
  have new: "NewRateLimiter 10 = Inr ?rl0"
    by (simp add: NewRateLimiter_def quo_def Second_def)
  have run: "requests (registry_run registry_ops_example ?rl0) =
      [''10.0.0.2'' \<mapsto> \<lparr> windowStart = 30000000000, currentCount = 1 \<rparr>]"
    by (simp add: registry_ops_example_def GetLimiter_def NewLimiter_def NewRequestTracker_def
        TrackRequest_def cleanup_entry_def Sub_def Let_def Second_def Minute_def
        maxDuration_def minDuration_def wrap64_def fun_eq_iff)
  show ?thesis
    using registry_pairs_invariant [OF new refl, of registry_ops_example] new
    by (simp add: run)
qed

section \<open>Properties of identity resolution\<close>

lemma canonical_forwarded: "CanonicalMIMEHeaderKey ''X-Forwarded-For'' = ''X-Forwarded-For''"
  by code_simp

lemma canonical_real_ip: "CanonicalMIMEHeaderKey ''X-Real-IP'' = ''X-Real-Ip''"
  by code_simp

lemma indexByte_None_iff: "indexByte s c = None \<longleftrightarrow> c \<notin> set s"
  by (induction s) auto

lemma lastIndexByte_None_iff: "lastIndexByte s c = None \<longleftrightarrow> c \<notin> set s"
  by (simp add: lastIndexByte_def indexByte_None_iff)

lemma SplitHostPort_no_colon: "CHR '':'' \<notin> set hostport \<Longrightarrow> SplitHostPort hostport = Inl MissingPort"
  using lastIndexByte_None_iff [of hostport "CHR '':''"] by (simp add: SplitHostPort_def)

lemma indexByte_Some: "indexByte s c = Some i \<Longrightarrow> i < length s \<and> s ! i = c"
proof (induction s arbitrary: i)
  case Nil then show ?case by simp
next
  case (Cons x xs)
  then show ?case by (auto split: if_splits)
qed

lemma lastIndexByte_Some: "lastIndexByte s c = Some i \<Longrightarrow> i < length s \<and> s ! i = c"
proof -
  assume "lastIndexByte s c = Some i"
  then obtain j where j: "indexByte (rev s) c = Some j" and i: "i = length s - 1 - j"
    by (auto simp: lastIndexByte_def)
  from indexByte_Some [OF j] have "j < length s" "rev s ! j = c" by auto
  then show ?thesis
    using i by (simp add: rev_nth)
qed

lemma split_plain:
  assumes "i < length hp" "hp ! i = c"
  shows "hp = take i hp @ c # drop (Suc i) hp"
  using id_take_nth_drop [OF assms(1)] assms(2) by simp

lemma split_bracket:
  assumes "take 1 hp = ''[''" "e < length hp" "hp ! e = CHR '']''" "Suc e < length hp" "hp ! Suc e = CHR '':''"
  shows "hp = ''['' @ take (e - 1) (drop 1 hp) @ '']:'' @ drop (Suc (Suc e)) hp"
proof -
  from assms(1) obtain tl where hp: "hp = CHR ''['' # tl"
    by (cases hp) auto
  have e0: "e \<noteq> 0" using assms(3) hp by (cases e) auto
  then obtain e' where e: "e = Suc e'" by (cases e) auto
  have "tl = take e' tl @ tl ! e' # drop (Suc e') tl"
    using assms(2) hp e by (intro id_take_nth_drop) simp
  moreover have "drop (Suc e') tl = tl ! Suc e' # drop (Suc (Suc e')) tl"
    using assms(4) hp e by (simp add: Cons_nth_drop_Suc)
  ultimately have "tl = take e' tl @ CHR '']'' # CHR '':'' # drop (Suc (Suc e')) tl"
    using assms(3,5) hp e by simp
  then show ?thesis
    using hp e by simp
qed

lemma SplitHostPort_shape:
  assumes "SplitHostPort hp = Inr (h, p)"
  shows "hp = h @ '':'' @ p \<or> hp = ''['' @ h @ '']:'' @ p"
proof -
  from assms obtain i where i: "lastIndexByte hp CHR '':'' = Some i"
    by (auto simp: SplitHostPort_def split: option.splits)
  note li = lastIndexByte_Some [OF i]
  show ?thesis
  proof (cases "take 1 hp = ''[''")
    case False
    with assms i have "h = take i hp" "p = drop (Suc i) hp"
      by (auto simp: SplitHostPort_def Let_def split: if_splits)
    then show ?thesis
      using split_plain [of i hp "CHR '':''"] li by simp
  next
    case True
    with assms i obtain e where e: "indexByte hp CHR '']'' = Some e"
      by (auto simp: SplitHostPort_def Let_def split: option.splits)
    with assms i True have ei: "Suc e = i" and "h = take (e - 1) (drop 1 hp)" "p = drop (Suc i) hp"
      by (auto simp: SplitHostPort_def Let_def split: if_splits)
    then show ?thesis
      using split_bracket [OF True, of e] indexByte_Some [OF e] li by simp
  qed
qed

lemma SplitHostPort_example:
  "SplitHostPort ''203.0.113.9:40000'' = Inr (''203.0.113.9'', ''40000'')"
  by code_simp

text \<open>
  C5. The client identity is the first non-empty one of: the value \<^verbatim>\<open>Header.Get\<close> gives
  for \<open>X-Forwarded-For\<close>, unchanged; the value it gives for \<open>X-Real-IP\<close>; the host part
  of \<open>RemoteAddr\<close> as \<^verbatim>\<open>net.SplitHostPort\<close> splits it (empty when the address does not
  split). When all three are empty the identity is the empty string. The host part is the
  address without its port: \<open>RemoteAddr\<close> is \<open>host:port\<close> or \<open>[host]:port\<close>.
\<close>

theorem getClientIP_first_nonempty:
  "getClientIP r =
     (case filter (\<lambda>v. v \<noteq> [])
        [Header_Get (Header r) ''X-Forwarded-For'',
         Header_Get (Header r) ''X-Real-IP'',
         (case SplitHostPort (RemoteAddr r) of Inl err \<Rightarrow> [] | Inr (host, port) \<Rightarrow> host)] of
        [] \<Rightarrow> []
      | v # _ \<Rightarrow> v) \<and>
   (\<forall>host port. SplitHostPort (RemoteAddr r) = Inr (host, port) \<longrightarrow>
      RemoteAddr r = host @ '':'' @ port \<or> RemoteAddr r = ''['' @ host @ '']:'' @ port)"
  using SplitHostPort_shape [of "RemoteAddr r"]
  by (simp add: getClientIP_def Let_def split: sum.splits prod.splits)

theorem getClientIP_first_nonempty_witness:
  "getClientIP \<lparr> Header = [''X-Forwarded-For'' \<mapsto> [''198.51.100.7, 10.0.0.2''],
                            ''X-Real-Ip'' \<mapsto> [''198.51.100.8'']],
                  RemoteAddr = ''203.0.113.9:40000'' \<rparr> = ''198.51.100.7, 10.0.0.2'' \<and>
   getClientIP \<lparr> Header = [''X-Real-Ip'' \<mapsto> [''198.51.100.8'']],
                  RemoteAddr = ''203.0.113.9:40000'' \<rparr> = ''198.51.100.8'' \<and>
   getClientIP request_example = ''203.0.113.9'' \<and>
   RemoteAddr request_example = ''203.0.113.9'' @ '':'' @ ''40000''"
proof -
  have "getClientIP \<lparr> Header = [''X-Forwarded-For'' \<mapsto> [''198.51.100.7, 10.0.0.2''],
                            ''X-Real-Ip'' \<mapsto> [''198.51.100.8'']],
                  RemoteAddr = ''203.0.113.9:40000'' \<rparr> = ''198.51.100.7, 10.0.0.2''"
    using getClientIP_first_nonempty
      [of "\<lparr> Header = [''X-Forwarded-For'' \<mapsto> [''198.51.100.7, 10.0.0.2''],
                          ''X-Real-Ip'' \<mapsto> [''198.51.100.8'']],
             RemoteAddr = ''203.0.113.9:40000'' \<rparr>"]
    by (simp add: Header_Get_def canonical_forwarded canonical_real_ip SplitHostPort_example)
  moreover have "getClientIP \<lparr> Header = [''X-Real-Ip'' \<mapsto> [''198.51.100.8'']],
                  RemoteAddr = ''203.0.113.9:40000'' \<rparr> = ''198.51.100.8''"
    using getClientIP_first_nonempty
      [of "\<lparr> Header = [''X-Real-Ip'' \<mapsto> [''198.51.100.8'']],
             RemoteAddr = ''203.0.113.9:40000'' \<rparr>"]
    by (simp add: Header_Get_def canonical_forwarded canonical_real_ip SplitHostPort_example)
  moreover have "getClientIP request_example = ''203.0.113.9'' \<and>
      RemoteAddr request_example = ''203.0.113.9'' @ '':'' @ ''40000''"
    using getClientIP_first_nonempty [of request_example]
    by (simp add: request_example_def Header_Get_def SplitHostPort_example)
  ultimately show ?thesis by simp
qed

text \<open>
  C9. A request with no \<open>X-Forwarded-For\<close> and no \<open>X-Real-IP\<close> value whose
  \<open>RemoteAddr\<close> has no colon gets the empty string as identity, whatever the address is.
  Two such requests therefore use one registry entry: the \<^verbatim>\<open>GetLimiter\<close> call of the
  second returns the gate and tracker the call of the first returned, stored under the
  empty key, and adds nothing.
\<close>

theorem getClientIP_no_port_shared_entry:
  assumes "Header_Get (Header r1) ''X-Forwarded-For'' = []" "Header_Get (Header r1) ''X-Real-IP'' = []"
    and "CHR '':'' \<notin> set (RemoteAddr r1)"
    and "Header_Get (Header r2) ''X-Forwarded-For'' = []" "Header_Get (Header r2) ''X-Real-IP'' = []"
    and "CHR '':'' \<notin> set (RemoteAddr r2)"
  shows "getClientIP r1 = [] \<and> getClientIP r2 = [] \<and>
     (GetLimiter now1 (getClientIP r1) rl = (l, t, rl1) \<longrightarrow>
        GetLimiter now2 (getClientIP r2) rl1 = (l, t, rl1) \<and>
        dom (requests rl1) = insert [] (dom (requests rl)))"
proof -
  have i1: "getClientIP r1 = []"
    using assms(1-3) by (simp add: getClientIP_def SplitHostPort_no_colon)
  have i2: "getClientIP r2 = []"
    using assms(4-6) by (simp add: getClientIP_def SplitHostPort_no_colon)
  have "GetLimiter now2 [] rl1 = (l, t, rl1) \<and> dom (requests rl1) = insert [] (dom (requests rl))"
    if g: "GetLimiter now1 [] rl = (l, t, rl1)"
  proof -
    from GetLimiter_present [OF g] have "clients rl1 [] = Some l" "requests rl1 [] = Some t"
      by auto
    then have "GetLimiter now2 [] rl1 = (l, t, rl1)"
      by (simp add: GetLimiter_def)
    moreover have "dom (requests rl1) = insert [] (dom (requests rl))"
      using g by (auto simp: GetLimiter_def Let_def split: option.splits)
    ultimately show ?thesis by simp
  qed
  then show ?thesis
    using i1 i2 by simp
qed


theorem getClientIP_no_port_shared_entry_witness:
  "getClientIP \<lparr> Header = Map.empty, RemoteAddr = ''192.0.2.1'' \<rparr> = [] \<and>
   getClientIP \<lparr> Header = Map.empty, RemoteAddr = ''198.51.100.77'' \<rparr> = [] \<and>
   GetLimiter 7
     (getClientIP \<lparr> Header = Map.empty, RemoteAddr = ''198.51.100.77'' \<rparr>)
     (snd (snd (GetLimiter 5 (getClientIP \<lparr> Header = Map.empty, RemoteAddr = ''192.0.2.1'' \<rparr>)
        (rateLimiter proxy_example)))) =
   GetLimiter 5 (getClientIP \<lparr> Header = Map.empty, RemoteAddr = ''192.0.2.1'' \<rparr>)
     (rateLimiter proxy_example) \<and>
   dom (requests (snd (snd (GetLimiter 5
     (getClientIP \<lparr> Header = Map.empty, RemoteAddr = ''192.0.2.1'' \<rparr>)
     (rateLimiter proxy_example))))) = {[]}"
proof -
  let ?r1 = "\<lparr> Header = Map.empty, RemoteAddr = ''192.0.2.1'' \<rparr>"
  let ?r2 = "\<lparr> Header = Map.empty, RemoteAddr = ''198.51.100.77'' \<rparr>"
  let ?g = "GetLimiter 5 (getClientIP ?r1) (rateLimiter proxy_example)"
  have h: "Header_Get (Header ?r1) ''X-Forwarded-For'' = []" "Header_Get (Header ?r1) ''X-Real-IP'' = []"
    "CHR '':'' \<notin> set (RemoteAddr ?r1)"
    "Header_Get (Header ?r2) ''X-Forwarded-For'' = []" "Header_Get (Header ?r2) ''X-Real-IP'' = []"
    "CHR '':'' \<notin> set (RemoteAddr ?r2)"
    by (simp_all add: Header_Get_def)
  have g: "?g = (fst ?g, fst (snd ?g), snd (snd ?g))"
    by simp
  have d: "dom (requests (rateLimiter proxy_example)) = {}"
    by (simp add: proxy_example_def)
  note t = getClientIP_no_port_shared_entry [OF h, of 5 "rateLimiter proxy_example"
      "fst ?g" "fst (snd ?g)" "snd (snd ?g)" 7]
  from t have i: "getClientIP ?r1 = []" "getClientIP ?r2 = []"
    by blast+
  from t g have rest: "GetLimiter 7 (getClientIP ?r2) (snd (snd ?g)) =
        (fst ?g, fst (snd ?g), snd (snd ?g)) \<and>
      dom (requests (snd (snd ?g))) = insert [] (dom (requests (rateLimiter proxy_example)))"
    by blast
  from rest have a: "GetLimiter 7 (getClientIP ?r2) (snd (snd ?g)) = ?g"
    by (simp only: prod.collapse)
  from rest have b: "dom (requests (snd (snd ?g))) = {[]}"
    by (simp only: d)
  from i a b show ?thesis
    by blast
qed

section \<open>Properties of the notifier\<close>

lemma marshal_payload:
  \<open>json_Marshal [(''container_id'', JString cid), (''limit_expected_rps'', JInt e),
      (''limit_exceeded_rps'', JInt r), (''message'', JString ''Rate limit exceeded'')] =
   ''{"container_id":'' @ jsonString cid @ '',"limit_exceeded_rps":'' @ Itoa r @
   '',"limit_expected_rps":'' @ Itoa e @ '',"message":"Rate limit exceeded"}''\<close>
  by (simp add: json_Marshal_def jsonString_def escapeByte_def)

lemma encodeBytes_plain: "list_all plainByte s \<Longrightarrow> encodeBytes s = s"
  by (induction s) (auto simp: plainByte_def escapeByte_def)

text \<open>
  C4, as the code has it. With a notification target configured, \<^verbatim>\<open>NotifyRateLimit\<close>
  makes exactly one POST, to the target, with content type \<open>application/json\<close>; its body
  is the compact JSON object whose members come in ascending key order, that is
  \<open>container_id\<close>, \<open>limit_exceeded_rps\<close>, \<open>limit_expected_rps\<close>, \<open>message\<close>, with
  no white space between tokens, the container id written as a JSON string (unchanged
  between the quotes when it has plain characters only) and the two rates in decimal.
  With no target configured the call does nothing outside, and returns no error.
\<close>

theorem NotifyRateLimit_wire_format:
  \<open>(webhookURL n \<noteq> [] \<longrightarrow>
      filter isHttpPost (snd (NotifyRateLimit post n expectedRPS receivedRPS)) =
        [HttpPost (webhookURL n) ''application/json''
           (''{"container_id":'' @ jsonString (containerID n) @
            '',"limit_exceeded_rps":'' @ Itoa receivedRPS @
            '',"limit_expected_rps":'' @ Itoa expectedRPS @
            '',"message":"Rate limit exceeded"}'')]) \<and>
   (list_all plainByte (containerID n) \<longrightarrow>
      jsonString (containerID n) = CHR 0x22 # containerID n @ [CHR 0x22]) \<and>
   (webhookURL n = [] \<longrightarrow>
      NotifyRateLimit post n expectedRPS receivedRPS = (None, [LogWebhookSkipped]) \<and>
      filter isHttpPost (snd (NotifyRateLimit post n expectedRPS receivedRPS)) = [])\<close>
proof (intro conjI impI)
  assume "webhookURL n \<noteq> []"
  then show \<open>filter isHttpPost (snd (NotifyRateLimit post n expectedRPS receivedRPS)) =
        [HttpPost (webhookURL n) ''application/json''
           (''{"container_id":'' @ jsonString (containerID n) @
            '',"limit_exceeded_rps":'' @ Itoa receivedRPS @
            '',"limit_expected_rps":'' @ Itoa expectedRPS @
            '',"message":"Rate limit exceeded"}'')]\<close>
    by (simp add: NotifyRateLimit_def Let_def marshal_payload isHttpPost_def split: sum.splits)
next
  assume "list_all plainByte (containerID n)"
  then show "jsonString (containerID n) = CHR 0x22 # containerID n @ [CHR 0x22]"
    by (simp add: jsonString_def encodeBytes_plain)
next
  assume "webhookURL n = []"
  then show "NotifyRateLimit post n expectedRPS receivedRPS = (None, [LogWebhookSkipped])"
    by (simp add: NotifyRateLimit_def)
next
  assume "webhookURL n = []"
  then show "filter isHttpPost (snd (NotifyRateLimit post n expectedRPS receivedRPS)) = []"
    by (simp add: NotifyRateLimit_def isHttpPost_def)
qed

theorem NotifyRateLimit_wire_format_witness:
  \<open>filter isHttpPost (snd (NotifyRateLimit transport_example notifier_example 10 12)) =
     [HttpPost ''http://hooks.test/notify'' ''application/json''
        ''{"container_id":"web-1","limit_exceeded_rps":12,"limit_expected_rps":10,"message":"Rate limit exceeded"}''] \<and>
   NotifyRateLimit transport_example \<lparr> webhookURL = [], containerID = ''web-1'' \<rparr> 10 12 =
     (None, [LogWebhookSkipped])\<close>
proof -
  have p: "list_all plainByte (containerID notifier_example)"
    by (simp add: notifier_example_def plainByte_def)
  have u: "webhookURL notifier_example \<noteq> []"
    by (simp add: notifier_example_def)
  have "filter isHttpPost (snd (NotifyRateLimit transport_example notifier_example 10 12)) =
     [HttpPost (webhookURL notifier_example) ''application/json''
        (''{'' @ CHR 0x22 # ''container_id'' @ CHR 0x22 # '':'' @ jsonString (containerID notifier_example) @
         '','' @ CHR 0x22 # ''limit_exceeded_rps'' @ CHR 0x22 # '':'' @ Itoa 12 @
         '','' @ CHR 0x22 # ''limit_expected_rps'' @ CHR 0x22 # '':'' @ Itoa 10 @
         '','' @ CHR 0x22 # ''message'' @ CHR 0x22 # '':'' @ CHR 0x22 # ''Rate limit exceeded'' @ [CHR 0x22] @ ''}'')]"
    using NotifyRateLimit_wire_format [of notifier_example transport_example 10 12] u by simp
  moreover have "jsonString (containerID notifier_example) = CHR 0x22 # ''web-1'' @ [CHR 0x22]"
    using NotifyRateLimit_wire_format [of notifier_example transport_example 10 12] p
    by (simp add: notifier_example_def)
  moreover have "Itoa 12 = ''12''" "Itoa 10 = ''10''"
    by (simp_all add: Itoa_def digits.simps)
  moreover have "NotifyRateLimit transport_example \<lparr> webhookURL = [], containerID = ''web-1'' \<rparr> 10 12 =
     (None, [LogWebhookSkipped])"
    using NotifyRateLimit_wire_format
      [of "\<lparr> webhookURL = [], containerID = ''web-1'' \<rparr>" transport_example 10 12]
    by simp
  ultimately show ?thesis
    by (simp add: notifier_example_def)
qed

text \<open>
  The body the spec gives for C4, with \<open>limit_expected_rps\<close> before
  \<open>limit_exceeded_rps\<close> and a space after each colon and comma, is not the body sent: for
  the container id \<open>web-1\<close>, limit 10 and observed rate 12 the POST carries the members
  in key order and without spaces, and differs from the spec's text, and from the spec's
  order written without spaces.
\<close>

theorem NotifyRateLimit_wire_format_counterexample:
  \<open>snd (NotifyRateLimit transport_example notifier_example 10 12) =
     [HttpPost ''http://hooks.test/notify'' ''application/json''
        ''{"container_id":"web-1","limit_exceeded_rps":12,"limit_expected_rps":10,"message":"Rate limit exceeded"}'',
      LogWebhookSent 200] \<and>
   snd (NotifyRateLimit transport_example notifier_example 10 12) \<noteq>
     [HttpPost ''http://hooks.test/notify'' ''application/json''
        ''{"container_id": "web-1", "limit_expected_rps": 10, "limit_exceeded_rps": 12, "message": "Rate limit exceeded"}'',
      LogWebhookSent 200] \<and>
   snd (NotifyRateLimit transport_example notifier_example 10 12) \<noteq>
     [HttpPost ''http://hooks.test/notify'' ''application/json''
        ''{"container_id":"web-1","limit_expected_rps":10,"limit_exceeded_rps":12,"message":"Rate limit exceeded"}'',
      LogWebhookSent 200]\<close>
  by (simp add: NotifyRateLimit_def marshal_payload jsonString_def escapeByte_def Itoa_def
      digits.simps transport_example_def notifier_example_def)


section \<open>Properties of configuration and start-up\<close>

lemma Atoi_zero: "Atoi ''0'' = Inr 0"
  by (simp add: Atoi_def isDigit_def decimal_def)

lemma Atoi_nonempty: "Atoi v = Inr i \<Longrightarrow> v \<noteq> []"
  by (auto simp: Atoi_def)

lemma quo_pos: "0 < a \<Longrightarrow> 0 < b \<Longrightarrow> quo a b = a div b"
  by (simp add: quo_def)

text \<open>
  C10. \<^verbatim>\<open>NewRateLimiter\<close> builds its limiter, with one token per \<open>Second div n\<close>
  nanoseconds, when \<open>n \<ge> 1\<close>; for \<open>n = 0\<close> the division panics. Nothing on the way
  checks the value: with \<open>RATE_LIMIT=0\<close> in the environment \<^verbatim>\<open>LoadConfig\<close> returns the
  limit 0 and \<^verbatim>\<open>NewReverseProxy\<close> runs into the panic, and any value that
  \<^verbatim>\<open>strconv.Atoi\<close> parses becomes the limit as it is. (A negative limit does not panic:
  its interval is not positive, which makes the rate infinite.)
\<close>

theorem NewRateLimiter_rps_zero_panics:
  "(1 \<le> n \<longrightarrow>
      NewRateLimiter n =
        Inr \<lparr> clients = Map.empty, requests = Map.empty, rate = Every (Second div n), rps = n \<rparr>) \<and>
   NewRateLimiter 0 = Inl DivideByZero \<and>
   (n < 0 \<longrightarrow>
      NewRateLimiter n =
        Inr \<lparr> clients = Map.empty, requests = Map.empty, rate = Inf, rps = n \<rparr>) \<and>
   (env ''RATE_LIMIT'' = Some ''0'' \<longrightarrow>
      RateLimit (LoadConfig env) = 0 \<and>
      (parses (BackendURL (LoadConfig env)) \<longrightarrow>
         NewReverseProxy parses (LoadConfig env) = Inl (Panic DivideByZero))) \<and>
   (env ''RATE_LIMIT'' = Some v \<longrightarrow> Atoi v = Inr i \<longrightarrow> RateLimit (LoadConfig env) = i)"
proof (intro conjI impI)
  assume "1 \<le> n"
  then show "NewRateLimiter n =
        Inr \<lparr> clients = Map.empty, requests = Map.empty, rate = Every (Second div n), rps = n \<rparr>"
    by (simp add: NewRateLimiter_def quo_pos Second_def)
next
  show "NewRateLimiter 0 = Inl DivideByZero"
    by (simp add: NewRateLimiter_def)
next
  assume "n < 0"
  then have "quo Second n \<le> 0"
    by (simp add: quo_def Second_def pos_imp_zdiv_nonneg_iff)
  with \<open>n < 0\<close> show "NewRateLimiter n =
        Inr \<lparr> clients = Map.empty, requests = Map.empty, rate = Inf, rps = n \<rparr>"
    by (simp add: NewRateLimiter_def Every_def)
next
  assume e: "env ''RATE_LIMIT'' = Some ''0''"
  then show z: "RateLimit (LoadConfig env) = 0"
    by (simp add: LoadConfig_def getEnvAsInt_def Getenv_def Atoi_zero)
  assume "parses (BackendURL (LoadConfig env))"
  then show "NewReverseProxy parses (LoadConfig env) = Inl (Panic DivideByZero)"
    using z by (simp add: NewReverseProxy_def NewRateLimiter_def)
next
  assume "env ''RATE_LIMIT'' = Some v" "Atoi v = Inr i"
  then show "RateLimit (LoadConfig env) = i"
    using Atoi_nonempty [of v i] by (simp add: LoadConfig_def getEnvAsInt_def Getenv_def)
qed


theorem NewRateLimiter_rps_zero_panics_witness:
  "NewRateLimiter 10 =
     Inr \<lparr> clients = Map.empty, requests = Map.empty, rate = Every 100000000, rps = 10 \<rparr> \<and>
   NewRateLimiter (- 5) =
     Inr \<lparr> clients = Map.empty, requests = Map.empty, rate = Inf, rps = - 5 \<rparr> \<and>
   RateLimit (LoadConfig [''RATE_LIMIT'' \<mapsto> ''0'']) = 0 \<and>
   NewReverseProxy (\<lambda>url. True) (LoadConfig [''RATE_LIMIT'' \<mapsto> ''0'']) = Inl (Panic DivideByZero) \<and>
   RateLimit (LoadConfig [''RATE_LIMIT'' \<mapsto> ''-5'']) = - 5"
proof -
  have a: "Atoi ''-5'' = Inr (- 5)"
    by (simp add: Atoi_def isDigit_def decimal_def)
  have "NewRateLimiter 10 =
     Inr \<lparr> clients = Map.empty, requests = Map.empty, rate = Every 100000000, rps = 10 \<rparr>"
    using NewRateLimiter_rps_zero_panics [of 10 Map.empty "\<lambda>url. True" "[]" 0]
    by (simp add: Second_def)
  moreover have "NewRateLimiter (- 5) =
     Inr \<lparr> clients = Map.empty, requests = Map.empty, rate = Inf, rps = - 5 \<rparr>"
    using NewRateLimiter_rps_zero_panics [of "- 5" Map.empty "\<lambda>url. True" "[]" 0]
    by simp
  moreover have "RateLimit (LoadConfig [''RATE_LIMIT'' \<mapsto> ''0'']) = 0 \<and>
      NewReverseProxy (\<lambda>url. True) (LoadConfig [''RATE_LIMIT'' \<mapsto> ''0'']) = Inl (Panic DivideByZero)"
    using NewRateLimiter_rps_zero_panics [of 1 "[''RATE_LIMIT'' \<mapsto> ''0'']" "\<lambda>url. True" "[]" 0]
    by simp
  moreover have "RateLimit (LoadConfig [''RATE_LIMIT'' \<mapsto> ''-5'']) = - 5"
    using NewRateLimiter_rps_zero_panics
      [of 1 "[''RATE_LIMIT'' \<mapsto> ''-5'']" "\<lambda>url. True" "''-5''" "- 5"] a
    by simp
  ultimately show ?thesis by simp
qed


section \<open>Properties of the dispatcher\<close>

lemma NotifyRateLimit_no_forward:
  "ProxyServeHTTP d \<notin> set (snd (NotifyRateLimit post n a b))"
  by (auto simp: NotifyRateLimit_def Let_def split: if_splits sum.splits)

lemma getClientIP_example: "getClientIP request_example = ''203.0.113.9''"
  by (simp add: getClientIP_def request_example_def Header_Get_def SplitHostPort_example)

text \<open>
  C1. \<^verbatim>\<open>ServeHTTP\<close> with \<open>observed\<close> the count \<^verbatim>\<open>TrackRequest\<close> returns for the
  request. When \<open>observed\<close> is at most the configured limit the request is forwarded and
  the client's gate is left as \<^verbatim>\<open>GetLimiter\<close> returned it: it is not consulted. When
  \<open>observed\<close> is above the limit the gate is consulted once, at the reading \<open>nowAllow\<close>,
  and keeps the state that call leaves; the request is rejected with 429 exactly when the call
  returns false, and forwarded otherwise.
\<close>

theorem ServeHTTP_admission:
  assumes "GetLimiter (nowGetLimiter clk) (getClientIP r) (rateLimiter rp) = (limiter, tracker, rl1)"
    and "observed = fst (TrackRequest (nowTrackRequest clk) tracker)"
    and "ServeHTTP post clk r rp = (events, rp')"
  shows "(observed \<le> RateLimit (config rp) \<longrightarrow>
            events = [ProxyServeHTTP (ProxyTimeout (config rp))] \<and>
            clients (rateLimiter rp') (getClientIP r) = Some limiter) \<and>
         (RateLimit (config rp) < observed \<longrightarrow>
            clients (rateLimiter rp') (getClientIP r) = Some (snd (Allow (nowAllow clk) limiter)) \<and>
            (HttpError ''Too Many Requests'' 429 \<in> set events \<longleftrightarrow>
               \<not> fst (Allow (nowAllow clk) limiter)) \<and>
            (fst (Allow (nowAllow clk) limiter) \<longrightarrow>
               events = [ProxyServeHTTP (ProxyTimeout (config rp))]) \<and>
            (\<not> fst (Allow (nowAllow clk) limiter) \<longrightarrow>
               ProxyServeHTTP (ProxyTimeout (config rp)) \<notin> set events))"
proof (intro conjI impI)
  assume le: "observed \<le> RateLimit (config rp)"
  have c1: "clients rl1 (getClientIP r) = Some limiter"
    using GetLimiter_present [OF assms(1)] by simp
  from le show "events = [ProxyServeHTTP (ProxyTimeout (config rp))]"
    using assms by (simp add: ServeHTTP_def Let_def split: prod.splits)
  from le show "clients (rateLimiter rp') (getClientIP r) = Some limiter"
    using assms c1 by (auto simp: ServeHTTP_def Let_def split: prod.splits)
next
  assume gt: "RateLimit (config rp) < observed"
  then show "clients (rateLimiter rp') (getClientIP r) = Some (snd (Allow (nowAllow clk) limiter))"
    using assms by (auto simp: ServeHTTP_def Let_def split: prod.splits if_splits)
  from gt show "HttpError ''Too Many Requests'' 429 \<in> set events \<longleftrightarrow>
               \<not> fst (Allow (nowAllow clk) limiter)"
    using assms by (auto simp: ServeHTTP_def Let_def split: prod.splits if_splits)
  from gt show "events = [ProxyServeHTTP (ProxyTimeout (config rp))]" if "fst (Allow (nowAllow clk) limiter)"
    using assms that by (auto simp: ServeHTTP_def Let_def split: prod.splits if_splits)
  from gt show "ProxyServeHTTP (ProxyTimeout (config rp)) \<notin> set events" if "\<not> fst (Allow (nowAllow clk) limiter)"
    using assms that
      NotifyRateLimit_no_forward [of "ProxyTimeout (config rp)" post "notifier rp"
        "RateLimit (config rp)" observed]
    by (auto simp: ServeHTTP_def Let_def split: prod.splits if_splits option.splits)
qed

theorem ServeHTTP_admission_witness:
  "fst (ServeHTTP transport_example (clock_example 1) request_example proxy_example) =
     [ProxyServeHTTP 30000000000] \<and>
   clients (rateLimiter (snd (ServeHTTP transport_example (clock_example 1) request_example
     proxy_example))) ''203.0.113.9'' = Some (NewLimiter (Every 100000000) 1) \<and>
   HttpError ''Too Many Requests'' 429 \<in>
     set (fst (ServeHTTP transport_example (clock_example 12) request_example busy_proxy_example)) \<and>
   ProxyServeHTTP 30000000000 \<notin>
     set (fst (ServeHTTP transport_example (clock_example 12) request_example busy_proxy_example))"
proof -
  let ?G1 = "\<lparr> refillRate = PerSecond 10, capacity = 1, tokens = 0, lastRefill = Some 11000002 \<rparr>"
  have g1: "GetLimiter (nowGetLimiter (clock_example 1)) (getClientIP request_example)
      (rateLimiter proxy_example) =
      (NewLimiter (Every 100000000) 1, NewRequestTracker 1000000,
       \<lparr> clients = [''203.0.113.9'' \<mapsto> NewLimiter (Every 100000000) 1],
         requests = [''203.0.113.9'' \<mapsto> NewRequestTracker 1000000],
         rate = Every 100000000, rps = 10 \<rparr>)"
    by (simp add: GetLimiter_def Let_def getClientIP_example proxy_example_def clock_example_def)
  have o1: "fst (TrackRequest (nowTrackRequest (clock_example 1)) (NewRequestTracker 1000000)) = 1"
    by (simp add: TrackRequest_def NewRequestTracker_def clock_example_def Sub_def Let_def
        Second_def maxDuration_def minDuration_def wrap64_def)
  have first: "fst (ServeHTTP transport_example (clock_example 1) request_example proxy_example) =
       [ProxyServeHTTP 30000000000] \<and>
     clients (rateLimiter (snd (ServeHTTP transport_example (clock_example 1) request_example
       proxy_example))) ''203.0.113.9'' = Some (NewLimiter (Every 100000000) 1)"
    using ServeHTTP_admission [OF g1 refl surjective_pairing, of transport_example] o1
    by (simp add: proxy_example_def config_example_def getClientIP_example)
  have g12: "GetLimiter (nowGetLimiter (clock_example 12)) (getClientIP request_example)
      (rateLimiter busy_proxy_example) =
      (?G1, \<lparr> windowStart = 1000000, currentCount = 11 \<rparr>, rateLimiter busy_proxy_example)"
    by (simp add: GetLimiter_def getClientIP_example busy_proxy_example_def)
  have o12: "fst (TrackRequest (nowTrackRequest (clock_example 12))
      \<lparr> windowStart = 1000000, currentCount = 11 \<rparr>) = 12"
    by (simp add: TrackRequest_def clock_example_def Sub_def Let_def
        Second_def maxDuration_def minDuration_def wrap64_def)
  have a12: "\<not> fst (Allow (nowAllow (clock_example 12)) ?G1)"
    by (simp add: Allow_def clock_example_def Sub_def Let_def Second_def
        maxDuration_def minDuration_def)
  have twelfth: "HttpError ''Too Many Requests'' 429 \<in>
       set (fst (ServeHTTP transport_example (clock_example 12) request_example busy_proxy_example)) \<and>
     ProxyServeHTTP 30000000000 \<notin>
       set (fst (ServeHTTP transport_example (clock_example 12) request_example busy_proxy_example))"
    using ServeHTTP_admission [OF g12 refl surjective_pairing, of transport_example] o12 a12
    by (simp add: busy_proxy_example_def proxy_example_def config_example_def)
  from first twelfth show ?thesis
    by blast
qed

lemma ServeHTTPs_append:
  "ServeHTTPs post (xs @ ys) rp =
     (fst (ServeHTTPs post xs rp) @ fst (ServeHTTPs post ys (snd (ServeHTTPs post xs rp))),
      snd (ServeHTTPs post ys (snd (ServeHTTPs post xs rp))))"
  by (induction xs arbitrary: rp) (auto split: prod.splits)

lemma ServeHTTPs_single:
  "ServeHTTPs post [(clk, r)] rp = ([fst (ServeHTTP post clk r rp)], snd (ServeHTTP post clk r rp))"
  by (simp split: prod.splits)

lemma ServeHTTP_below_limit:
  assumes "getClientIP r = ip"
    and "requests (rateLimiter rp) ip = Some tr"
    and "clients (rateLimiter rp) ip = Some g"
    and "nowTrackRequest clk - windowStart tr < Second"
    and "0 \<le> currentCount tr"
    and "currentCount tr + 1 \<le> RateLimit (config rp)"
    and "RateLimit (config rp) < 2 ^ 63"
  shows "ServeHTTP post clk r rp =
     ([ProxyServeHTTP (ProxyTimeout (config rp))],
      rp\<lparr> rateLimiter := (rateLimiter rp)\<lparr> requests :=
        (requests (rateLimiter rp))(ip \<mapsto> tr\<lparr> currentCount := currentCount tr + 1 \<rparr>) \<rparr> \<rparr>)"
proof -
  have g: "GetLimiter (nowGetLimiter clk) ip (rateLimiter rp) = (g, tr, rateLimiter rp)"
    using assms(2,3) by (simp add: GetLimiter_def)
  have w: "wrap64 (currentCount tr + 1) = currentCount tr + 1"
    using assms(5-7) by (intro wrap64_id) auto
  have t: "TrackRequest (nowTrackRequest clk) tr =
      (currentCount tr + 1, tr\<lparr> currentCount := currentCount tr + 1 \<rparr>)"
    using assms(4) w by (simp add: TrackRequest_same_window)
  show ?thesis
    using assms(1,6) by (simp add: ServeHTTP_def g t)
qed

lemma ServeHTTPs_below_limit:
  assumes "\<forall>(clk, r) \<in> set reqs. getClientIP r = ip \<and> nowTrackRequest clk - windowStart tr < Second"
    and "requests (rateLimiter rp) ip = Some tr"
    and "clients (rateLimiter rp) ip = Some g"
    and "0 \<le> currentCount tr"
    and "currentCount tr + int (length reqs) \<le> RateLimit (config rp)"
    and "RateLimit (config rp) < 2 ^ 63"
  shows "ServeHTTPs post reqs rp =
     (replicate (length reqs) [ProxyServeHTTP (ProxyTimeout (config rp))],
      rp\<lparr> rateLimiter := (rateLimiter rp)\<lparr> requests :=
        (requests (rateLimiter rp))(ip \<mapsto> tr\<lparr> currentCount := currentCount tr + int (length reqs) \<rparr>) \<rparr> \<rparr>)"
  using assms
proof (induction reqs arbitrary: rp tr)
  case Nil
  have "(requests (rateLimiter rp))(ip \<mapsto> tr) = requests (rateLimiter rp)"
    using Nil.prems(2) by (rule map_upd_triv)
  then show ?case by simp
next
  case (Cons q reqs)
  obtain clk r where q: "q = (clk, r)" by (cases q)
  let ?tr1 = "tr\<lparr> currentCount := currentCount tr + 1 \<rparr>"
  let ?rp1 = "rp\<lparr> rateLimiter := (rateLimiter rp)\<lparr> requests :=
        (requests (rateLimiter rp))(ip \<mapsto> ?tr1) \<rparr> \<rparr>"
  have step: "ServeHTTP post clk r rp = ([ProxyServeHTTP (ProxyTimeout (config rp))], ?rp1)"
    using Cons.prems q by (intro ServeHTTP_below_limit [where g = g]) auto
  have rest: "ServeHTTPs post reqs ?rp1 =
     (replicate (length reqs) [ProxyServeHTTP (ProxyTimeout (config ?rp1))],
      ?rp1\<lparr> rateLimiter := (rateLimiter ?rp1)\<lparr> requests :=
        (requests (rateLimiter ?rp1))(ip \<mapsto> ?tr1\<lparr> currentCount := currentCount ?tr1 + int (length reqs) \<rparr>) \<rparr> \<rparr>)"
    using Cons.prems by (intro Cons.IH) auto
  show ?case
    by (simp add: q step rest add.assoc) (simp add: fun_upd_def)
qed

lemma ServeHTTP_fresh:
  assumes "getClientIP r = ip"
    and "requests (rateLimiter rp) ip = None"
    and "clients (rateLimiter rp) ip = None"
    and "nowTrackRequest clk - nowGetLimiter clk < Second"
    and "1 \<le> RateLimit (config rp)"
  shows "ServeHTTP post clk r rp =
     ([ProxyServeHTTP (ProxyTimeout (config rp))],
      rp\<lparr> rateLimiter := (rateLimiter rp)\<lparr>
        clients := (clients (rateLimiter rp))(ip \<mapsto> NewLimiter (rate (rateLimiter rp)) 1),
        requests := (requests (rateLimiter rp))
          (ip \<mapsto> \<lparr> windowStart = nowGetLimiter clk, currentCount = 1 \<rparr>) \<rparr> \<rparr>)"
proof -
  have t: "TrackRequest (nowTrackRequest clk) (NewRequestTracker (nowGetLimiter clk)) =
      (1, \<lparr> windowStart = nowGetLimiter clk, currentCount = 1 \<rparr>)"
    using assms(4) by (simp add: TrackRequest_same_window NewRequestTracker_def wrap64_def)
  show ?thesis
    using assms(1-3,5) by (simp add: ServeHTTP_def GetLimiter_def Let_def t)
qed

lemma ServeHTTP_above_limit:
  assumes "getClientIP r = ip"
    and "requests (rateLimiter rp) ip = Some tr"
    and "clients (rateLimiter rp) ip = Some g"
    and "nowTrackRequest clk - windowStart tr < Second"
    and "0 \<le> currentCount tr"
    and "RateLimit (config rp) < currentCount tr + 1"
    and "currentCount tr + 1 < 2 ^ 63"
  shows "ServeHTTP post clk r rp =
     (if fst (Allow (nowAllow clk) g) then [ProxyServeHTTP (ProxyTimeout (config rp))]
      else rejection post rp ip (currentCount tr + 1),
      rp\<lparr> rateLimiter := (rateLimiter rp)\<lparr>
        requests := (requests (rateLimiter rp))(ip \<mapsto> tr\<lparr> currentCount := currentCount tr + 1 \<rparr>),
        clients := (clients (rateLimiter rp))(ip \<mapsto> snd (Allow (nowAllow clk) g)) \<rparr> \<rparr>)"
proof -
  have g: "GetLimiter (nowGetLimiter clk) ip (rateLimiter rp) = (g, tr, rateLimiter rp)"
    using assms(2,3) by (simp add: GetLimiter_def)
  have w: "wrap64 (currentCount tr + 1) = currentCount tr + 1"
    using assms(5,7) by (intro wrap64_id) auto
  have t: "TrackRequest (nowTrackRequest clk) tr =
      (currentCount tr + 1, tr\<lparr> currentCount := currentCount tr + 1 \<rparr>)"
    using assms(4) w by (simp add: TrackRequest_same_window)
  show ?thesis
    using assms(1,6)
    by (simp add: ServeHTTP_def g t rejection_def split: prod.splits option.splits)
qed

lemma Every_tenth: "Every 100000000 = PerSecond 10"
  by (simp add: Every_def Second_def)

lemma Allow_full_gate:
  "Allow now (NewLimiter (PerSecond 10) 1) =
     (True, \<lparr> refillRate = PerSecond 10, capacity = 1, tokens = 0, lastRefill = Some now \<rparr>)"
  by (simp add: Allow_def NewLimiter_def Let_def)

lemma Allow_drained_gate:
  assumes "now - l < 100000000"
  shows "fst (Allow now \<lparr> refillRate = PerSecond 10, capacity = 1, tokens = 0, lastRefill = Some l \<rparr>) = False"
proof -
  have "max 0 (Sub now l) < 100000000"
    using assms by (auto simp: Sub_def Let_def maxDuration_def minDuration_def)
  then have "rat_of_int (max 0 (Sub now l)) < 100000000"
    by (metis of_int_less_iff of_int_numeral)
  then have "rat_of_int (max 0 (Sub now l)) / of_int Second * 10 < 1"
    by (simp add: Second_def)
  then show ?thesis
    by (simp add: Allow_def Let_def)
qed

text \<open>
  C3. The limit is 10 and the client is new to the registry. It sends twelve requests, each
  counted less than one second after its tracker was created. The first ten are forwarded and
  leave the gate as it was created, full and never consulted. The eleventh is counted as 11,
  consults the gate, takes its one token and is forwarded. The twelfth is counted as 12 and
  consults the gate less than the refill interval of 100 ms after the eleventh did: it is
  rejected with 429 after one call of the notifier with expected 10 and exceeded 12, which,
  when a target is configured, is one POST of that payload.
\<close>

theorem scenario_limit_ten:
  assumes lim: "RateLimit (config rp) = 10"
    and rt: "rate (rateLimiter rp) = Every (quo Second 10)"
    and fresh: "clients (rateLimiter rp) ip = None" "requests (rateLimiter rp) ip = None"
    and len: "length rest = 9"
    and reqs: "reqs = (c1, r1) # rest @ [(c11, r11), (c12, r12)]"
    and same: "\<forall>(clk, r) \<in> set reqs.
        getClientIP r = ip \<and> nowTrackRequest clk - nowGetLimiter c1 < Second"
    and gap: "nowAllow c12 - nowAllow c11 < 100000000"
  shows "fst (ServeHTTPs post reqs rp) =
           replicate 11 [ProxyServeHTTP (ProxyTimeout (config rp))] @
           [[LogRateLimitExceeded ip 12 10] @
            snd (NotifyRateLimit post (notifier rp) 10 12) @
            (case fst (NotifyRateLimit post (notifier rp) 10 12) of
               None \<Rightarrow> [] | Some e \<Rightarrow> [LogWebhookFailed e]) @
            [HttpError ''Too Many Requests'' 429]] \<and>
         clients (rateLimiter (snd (ServeHTTPs post ((c1, r1) # rest) rp))) ip =
           Some (NewLimiter (Every 100000000) 1) \<and>
         clients (rateLimiter (snd (ServeHTTPs post ((c1, r1) # rest @ [(c11, r11)]) rp))) ip =
           Some ((NewLimiter (Every 100000000) 1)\<lparr> tokens := 0, lastRefill := Some (nowAllow c11) \<rparr>) \<and>
         (webhookURL (notifier rp) \<noteq> [] \<longrightarrow>
            filter isHttpPost (last (fst (ServeHTTPs post reqs rp))) =
              [HttpPost (webhookURL (notifier rp)) ''application/json''
                 (json_Marshal [(''container_id'', JString (containerID (notifier rp))),
                                (''limit_expected_rps'', JInt 10),
                                (''limit_exceeded_rps'', JInt 12),
                                (''message'', JString ''Rate limit exceeded'')])])"
proof -
  let ?fw = "[ProxyServeHTTP (ProxyTimeout (config rp))]"
  let ?G0 = "NewLimiter (PerSecond 10) 1"
  let ?G1 = "\<lparr> refillRate = PerSecond 10, capacity = 1, tokens = 0, lastRefill = Some (nowAllow c11) \<rparr>"
  let ?tr = "\<lambda>n. \<lparr> windowStart = nowGetLimiter c1, currentCount = n \<rparr>"
  let ?rl = "rateLimiter rp"
  have rate10: "rate ?rl = PerSecond 10"
    using rt by (simp add: quo_def Second_def Every_def)
  have ids: "getClientIP r1 = ip" "getClientIP r11 = ip" "getClientIP r12 = ip"
    and win: "nowTrackRequest c1 - nowGetLimiter c1 < Second"
      "nowTrackRequest c11 - nowGetLimiter c1 < Second"
      "nowTrackRequest c12 - nowGetLimiter c1 < Second"
    and mid: "\<forall>(clk, r) \<in> set rest.
        getClientIP r = ip \<and> nowTrackRequest clk - windowStart (?tr 1) < Second"
    using same unfolding reqs by auto
  \<comment> \<open>the first request creates the pair\<close>
  let ?rp1 = "rp\<lparr> rateLimiter := ?rl\<lparr> clients := (clients ?rl)(ip \<mapsto> ?G0),
        requests := (requests ?rl)(ip \<mapsto> ?tr 1) \<rparr> \<rparr>"
  have s1: "ServeHTTP post c1 r1 rp = (?fw, ?rp1)"
    using ServeHTTP_fresh [OF ids(1) fresh(2) fresh(1) win(1), of post] lim rate10 by simp
  \<comment> \<open>requests 2 to 10 stay at or below the limit\<close>
  let ?rp10 = "rp\<lparr> rateLimiter := ?rl\<lparr> clients := (clients ?rl)(ip \<mapsto> ?G0),
        requests := (requests ?rl)(ip \<mapsto> ?tr 10) \<rparr> \<rparr>"
  have "ServeHTTPs post rest ?rp1 =
     (replicate (length rest) [ProxyServeHTTP (ProxyTimeout (config ?rp1))],
      ?rp1\<lparr> rateLimiter := (rateLimiter ?rp1)\<lparr> requests :=
        (requests (rateLimiter ?rp1))(ip \<mapsto> (?tr 1)\<lparr> currentCount := currentCount (?tr 1) + int (length rest) \<rparr>) \<rparr> \<rparr>)"
    using mid lim len by (intro ServeHTTPs_below_limit [where g = ?G0]) auto
  then have s10: "ServeHTTPs post rest ?rp1 = (replicate 9 ?fw, ?rp10)"
    using len by simp
  \<comment> \<open>request 11 is over the limit and finds the gate full\<close>
  let ?rp11 = "rp\<lparr> rateLimiter := ?rl\<lparr> clients := (clients ?rl)(ip \<mapsto> ?G1),
        requests := (requests ?rl)(ip \<mapsto> ?tr 11) \<rparr> \<rparr>"
  have "ServeHTTP post c11 r11 ?rp10 =
     (if fst (Allow (nowAllow c11) ?G0) then [ProxyServeHTTP (ProxyTimeout (config ?rp10))]
      else rejection post ?rp10 ip (currentCount (?tr 10) + 1),
      ?rp10\<lparr> rateLimiter := (rateLimiter ?rp10)\<lparr>
        requests := (requests (rateLimiter ?rp10))(ip \<mapsto> (?tr 10)\<lparr> currentCount := currentCount (?tr 10) + 1 \<rparr>),
        clients := (clients (rateLimiter ?rp10))(ip \<mapsto> snd (Allow (nowAllow c11) ?G0)) \<rparr> \<rparr>)"
    using ids(2) win(2) lim by (intro ServeHTTP_above_limit) auto
  then have s11: "ServeHTTP post c11 r11 ?rp10 = (?fw, ?rp11)"
    by (simp add: Allow_full_gate)
  \<comment> \<open>request 12 finds it drained\<close>
  have "ServeHTTP post c12 r12 ?rp11 =
     (if fst (Allow (nowAllow c12) ?G1) then [ProxyServeHTTP (ProxyTimeout (config ?rp11))]
      else rejection post ?rp11 ip (currentCount (?tr 11) + 1),
      ?rp11\<lparr> rateLimiter := (rateLimiter ?rp11)\<lparr>
        requests := (requests (rateLimiter ?rp11))(ip \<mapsto> (?tr 11)\<lparr> currentCount := currentCount (?tr 11) + 1 \<rparr>),
        clients := (clients (rateLimiter ?rp11))(ip \<mapsto> snd (Allow (nowAllow c12) ?G1)) \<rparr> \<rparr>)"
    using ids(3) win(3) lim by (intro ServeHTTP_above_limit) auto
  then have s12: "fst (ServeHTTP post c12 r12 ?rp11) = rejection post rp ip 12"
    using Allow_drained_gate [OF gap] by (simp add: rejection_def)
  have a: "ServeHTTPs post ((c1, r1) # rest) rp = (replicate 10 ?fw, ?rp10)"
    by (simp add: s1 s10 numeral_eq_Suc)
  have rep: "replicate 10 ?fw @ [?fw] = replicate 11 ?fw"
  proof -
    have "replicate 11 ?fw = replicate (Suc 10) ?fw" by simp
    then show ?thesis by (simp only: replicate_append_same replicate_Suc)
  qed
  have b: "ServeHTTPs post ((c1, r1) # rest @ [(c11, r11)]) rp = (replicate 11 ?fw, ?rp11)"
  proof -
    have "ServeHTTPs post (((c1, r1) # rest) @ [(c11, r11)]) rp = (replicate 10 ?fw @ [?fw], ?rp11)"
      by (simp only: ServeHTTPs_append a fst_conv snd_conv ServeHTTPs_single s11)
    then show ?thesis
      by (simp only: append_Cons rep)
  qed
  have c: "fst (ServeHTTPs post reqs rp) = replicate 11 ?fw @ [rejection post rp ip 12]"
  proof -
    have "ServeHTTPs post (((c1, r1) # rest @ [(c11, r11)]) @ [(c12, r12)]) rp =
        (replicate 11 ?fw @ [rejection post rp ip 12], snd (ServeHTTP post c12 r12 ?rp11))"
      by (simp only: ServeHTTPs_append b fst_conv snd_conv ServeHTTPs_single s12)
    then show ?thesis
      by (simp add: reqs del: ServeHTTPs.simps)
  qed
  have d: "filter isHttpPost (rejection post rp ip 12) =
      [HttpPost (webhookURL (notifier rp)) ''application/json''
         (json_Marshal [(''container_id'', JString (containerID (notifier rp))),
                        (''limit_expected_rps'', JInt 10),
                        (''limit_exceeded_rps'', JInt 12),
                        (''message'', JString ''Rate limit exceeded'')])]"
    if "webhookURL (notifier rp) \<noteq> []"
    using that lim
    by (simp add: rejection_def NotifyRateLimit_def Let_def isHttpPost_def split: sum.splits)
  show ?thesis
    using a b c d lim by (simp add: rejection_def Every_tenth NewLimiter_def)
qed

theorem scenario_limit_ten_witness:
  \<open>fst (ServeHTTPs transport_example requests_example proxy_example) =
     replicate 11 [ProxyServeHTTP 30000000000] @
     [[LogRateLimitExceeded ''203.0.113.9'' 12 10,
       HttpPost ''http://hooks.test/notify'' ''application/json''
         ''{"container_id":"web-1","limit_exceeded_rps":12,"limit_expected_rps":10,"message":"Rate limit exceeded"}'',
       LogWebhookSent 200,
       HttpError ''Too Many Requests'' 429]] \<and>
   clients (rateLimiter (snd (ServeHTTPs transport_example (take 10 requests_example)
     proxy_example))) ''203.0.113.9'' = Some (NewLimiter (Every 100000000) 1)\<close>
proof -
  let ?rest = "map (\<lambda>i. (clock_example i, request_example)) [2, 3, 4, 5, 6, 7, 8, 9, 10]"
  let ?reqs = "(clock_example 1, request_example) # ?rest @
      [(clock_example 11, request_example), (clock_example 12, request_example)]"
  have lim: "RateLimit (config proxy_example) = 10"
    by (simp add: proxy_example_def config_example_def)
  have rt: "rate (rateLimiter proxy_example) = Every (quo Second 10)"
    by (simp add: proxy_example_def quo_def Second_def)
  have fresh: "clients (rateLimiter proxy_example) ''203.0.113.9'' = None"
    "requests (rateLimiter proxy_example) ''203.0.113.9'' = None"
    by (simp_all add: proxy_example_def)
  have len: "length ?rest = 9"
    by simp
  have same: "\<forall>(clk, r) \<in> set ?reqs. getClientIP r = ''203.0.113.9'' \<and>
      nowTrackRequest clk - nowGetLimiter (clock_example 1) < Second"
    by (simp add: getClientIP_example clock_example_def Second_def)
  have gap: "nowAllow (clock_example 12) - nowAllow (clock_example 11) < 100000000"
    by (simp add: clock_example_def)
  have r: "requests_example = ?reqs"
    by (simp add: requests_example_def)
  have t: "take 10 requests_example = (clock_example 1, request_example) # ?rest"
    by (simp add: requests_example_def)
  have n: \<open>snd (NotifyRateLimit transport_example (notifier proxy_example) 10 12) =
      [HttpPost ''http://hooks.test/notify'' ''application/json''
         ''{"container_id":"web-1","limit_exceeded_rps":12,"limit_expected_rps":10,"message":"Rate limit exceeded"}'',
       LogWebhookSent 200]\<close>
    \<open>fst (NotifyRateLimit transport_example (notifier proxy_example) 10 12) = None\<close>
    by (simp_all add: NotifyRateLimit_def marshal_payload jsonString_def escapeByte_def Itoa_def
        digits.simps transport_example_def notifier_example_def proxy_example_def)
  show ?thesis
    using scenario_limit_ten [OF lim rt fresh len refl same gap, of transport_example]
    by (simp only: r t n) (simp add: proxy_example_def config_example_def)
qed


end
